theory Spec2Isabelle
  imports Complex_Main
begin

section \<open>RANSAC: the consensus-search loop of \<^verbatim>\<open>sklearn/linear_model/ransac.py\<close>\<close>

subsection \<open>Floating-point values as compared by Python\<close>

text \<open>
  A float is NaN, an infinity, or a finite double; every finite double is a rational
  number, and IEEE comparison of finite values is the order of those rationals. Python
  integers enter comparisons with floats by value, so an integer \<open>n\<close> is \<open>Fin (of_int n)\<close>.
  Every comparison with NaN is false.
\<close>

datatype pyfloat = NaN | NInf | Fin rat | PInf

fun fl_less :: "pyfloat \<Rightarrow> pyfloat \<Rightarrow> bool" where
  "fl_less NaN _ = False"
| "fl_less _ NaN = False"
| "fl_less NInf NInf = False"
| "fl_less NInf _ = True"
| "fl_less (Fin a) (Fin b) = (a < b)"
| "fl_less (Fin a) PInf = True"
| "fl_less (Fin a) NInf = False"
| "fl_less PInf _ = False"

fun fl_ge :: "pyfloat \<Rightarrow> pyfloat \<Rightarrow> bool" where
  "fl_ge NaN _ = False"
| "fl_ge _ NaN = False"
| "fl_ge PInf _ = True"
| "fl_ge (Fin a) (Fin b) = (b \<le> a)"
| "fl_ge (Fin a) NInf = True"
| "fl_ge (Fin a) PInf = False"
| "fl_ge NInf NInf = True"
| "fl_ge NInf _ = False"

subsection \<open>Objects, the store and the collaborators\<close>

text \<open>
  \<open>X\<close> is a list of rows; \<open>X.shape[0]\<close> is its length. \<open>y\<close> is an array of target
  rows with the kind character of its dtype (\<open>y.dtype.kind\<close>).
\<close>

record 'y ndarray =
  dtype_kind :: char
  items :: "'y list"

text \<open>
  The three \<open>ValueError\<close>s of \<open>fit\<close> are told apart by their message. An exception
  raised inside a collaborator (the estimator's methods, the generator) is not caught by
  \<open>fit\<close>: it is \<open>Propagated\<close>. \<open>IndexError\<close> is numpy's, from indexing an array
  with an index array or a mask that does not fit it. \<open>UnboundLocalError\<close> is Python's,
  from reading the loop variable when the loop body never ran.
\<close>

datatype error =
    NoBaseEstimator       \<comment> \<open>\<open>ValueError("`base_estimator` not specified.")\<close>\<close>
  | BadMinNSamples        \<comment> \<open>\<open>ValueError("Value for `min_n_samples` must be scalar and positive.")\<close>\<close>
  | NoConsensus           \<comment> \<open>\<open>ValueError("RANSAC could not find valid consensus set.")\<close>\<close>
  | IndexError
  | UnboundLocalError
  | Propagated

text \<open>The value of the \<open>random_state\<close> parameter: \<open>None\<close>, an integer seed, or a
  generator object (by its address in the store).\<close>

datatype rstate = RSNone | RSSeed int | RSInstance nat

text \<open>A reference to a generator: numpy's global one, or a generator object.\<close>

datatype gen_ref = GlobalGen | GenObj nat

text \<open>The calls \<open>fit\<close> makes to its collaborators, in order, with their arguments.\<close>

datatype ('x, 'y) call =
    CallClone nat
  | CallLinearRegression
  | CallRandint nat pyfloat
  | CallIsDataValid "'x list" "'y list"
  | CallFit "'x list" "'y list"
  | CallIsModelValid "'x list" "'y list"
  | CallPredict "'x list"
  | CallScore "'x list" "'y list"

text \<open>
  The store: estimator objects and generator objects by address, numpy's global
  generator, and the log of calls. An object created during \<open>fit\<close> gets the next free
  address, the length of the list. Python has no dangling reference: an address held by
  an object or a variable is below the length of its list.
\<close>

record ('e, 'g, 'x, 'y) world =
  ests :: "'e list"
  gens :: "'g list"
  global_gen :: 'g
  calls :: "('x, 'y) call list"

text \<open>
  The collaborators \<open>fit\<close> consumes, as parameters: the estimator's methods on the
  estimator's state \<open>'e\<close> (\<open>None\<close> when the method raises), numpy's generator on its
  state \<open>'g\<close>, and the rounding of float arithmetic: \<open>round_double x\<close> is the double that
  an arithmetic operation returns when its exact result is \<open>x\<close>.
\<close>

record ('e, 'g, 'x, 'y) env =
  clone :: "'e \<Rightarrow> 'e"
  LinearRegression :: 'e
  RandomState :: "int \<Rightarrow> 'g"
  randint :: "'g \<Rightarrow> nat \<Rightarrow> pyfloat \<Rightarrow> (nat list \<times> 'g) option"
  round_double :: "rat \<Rightarrow> rat"
  est_fit :: "'e \<Rightarrow> 'x list \<Rightarrow> 'y list \<Rightarrow> 'e option"
  predict :: "'e \<Rightarrow> 'x list \<Rightarrow> 'y list option"
  abs_sub :: "'y list \<Rightarrow> 'y list \<Rightarrow> pyfloat list option"
  score :: "'e \<Rightarrow> 'x list \<Rightarrow> 'y list \<Rightarrow> pyfloat option"

text \<open>The \<open>RANSAC\<close> object: the constructor's parameters and the fitted attributes
  (\<open>None\<close> while unassigned). \<open>base_estimator\<close> holds the address of the prototype.
  The fitted attributes \<^verbatim>\<open>estimator_\<close>, \<^verbatim>\<open>n_trials_\<close> and \<^verbatim>\<open>inlier_mask_\<close> are written with a
  prime, a name not ending in an underscore.\<close>

record ('e, 'x, 'y) ransac =
  base_estimator :: "nat option"
  min_n_samples :: pyfloat
  residual_threshold :: pyfloat
  is_data_valid :: "('x list \<Rightarrow> 'y list \<Rightarrow> bool) option"
  is_model_valid :: "('e \<Rightarrow> 'x list \<Rightarrow> 'y list \<Rightarrow> bool) option"
  max_trials :: int
  stop_n_inliers :: pyfloat
  stop_score :: pyfloat
  random_state :: rstate
  estimator' :: "nat option"
  n_trials' :: "nat option"
  inlier_mask' :: "bool list option"

definition log_call :: "('x, 'y) call \<Rightarrow> ('e, 'g, 'x, 'y) world \<Rightarrow> ('e, 'g, 'x, 'y) world" where
  "log_call c w = w\<lparr>calls := calls w @ [c]\<rparr>"

definition gen_get :: "('e, 'g, 'x, 'y) world \<Rightarrow> gen_ref \<Rightarrow> 'g" where
  "gen_get w r = (case r of GlobalGen \<Rightarrow> global_gen w | GenObj a \<Rightarrow> gens w ! a)"

definition gen_set :: "gen_ref \<Rightarrow> 'g \<Rightarrow> ('e, 'g, 'x, 'y) world \<Rightarrow> ('e, 'g, 'x, 'y) world" where
  "gen_set r g w =
     (case r of GlobalGen \<Rightarrow> w\<lparr>global_gen := g\<rparr> | GenObj a \<Rightarrow> w\<lparr>gens := (gens w)[a := g]\<rparr>)"

definition est_set :: "nat \<Rightarrow> 'e \<Rightarrow> ('e, 'g, 'x, 'y) world \<Rightarrow> ('e, 'g, 'x, 'y) world" where
  "est_set a e w = w\<lparr>ests := (ests w)[a := e]\<rparr>"

text \<open>Modelled from the spec: \<open>clone\<close> of \<open>sklearn.base\<close> is not in the source. The spec
  has it give "a fresh independent copy of the configured base estimator": a new object,
  at the next free address, holding a copy of the prototype's state.\<close>

definition clone_obj ::
  "('e, 'g, 'x, 'y) env \<Rightarrow> nat \<Rightarrow> ('e, 'g, 'x, 'y) world \<Rightarrow> nat \<times> ('e, 'g, 'x, 'y) world" where
  "clone_obj E p w =
     (length (ests w), log_call (CallClone p) (w\<lparr>ests := ests w @ [clone E (ests w ! p)]\<rparr>))"

text \<open>Modelled from the spec: \<open>LinearRegression\<close> of \<open>sklearn.linear_model.base\<close> is not in
  the source. Its constructor gives a new, unfitted "default ordinary-least-squares
  regressor".\<close>

definition new_LinearRegression ::
  "('e, 'g, 'x, 'y) env \<Rightarrow> ('e, 'g, 'x, 'y) world \<Rightarrow> nat \<times> ('e, 'g, 'x, 'y) world" where
  "new_LinearRegression E w =
     (length (ests w), log_call CallLinearRegression (w\<lparr>ests := ests w @ [LinearRegression E]\<rparr>))"

text \<open>Modelled from the spec: \<open>check_random_state\<close> of \<open>sklearn.utils\<close> is not in the
  source. The spec has it "normalize the random source from the configured seed (integer
  or reusable generator) to a concrete generator instance", and the class's docstring adds
  that the parameter "defaults to the global numpy random number generator": an integer
  seeds a new generator, a generator object is itself the instance, and \<open>None\<close> is the
  global generator.\<close>

definition check_random_state ::
  "('e, 'g, 'x, 'y) env \<Rightarrow> rstate \<Rightarrow> ('e, 'g, 'x, 'y) world \<Rightarrow> gen_ref \<times> ('e, 'g, 'x, 'y) world" where
  "check_random_state E rs w =
     (case rs of
        RSNone \<Rightarrow> (GlobalGen, w)
      | RSSeed n \<Rightarrow> (GenObj (length (gens w)), w\<lparr>gens := gens w @ [RandomState E n]\<rparr>)
      | RSInstance a \<Rightarrow> (GenObj a, w))"

subsection \<open>numpy indexing\<close>

text \<open>\<open>a[idxs]\<close> with an array of indices: the rows at these indices, in order, with
  repetition; an index outside the array raises \<open>IndexError\<close>.\<close>

definition take_rows :: "'a list \<Rightarrow> nat list \<Rightarrow> error + 'a list" where
  "take_rows a idxs =
     (if \<forall>i \<in> set idxs. i < length a then Inr (map (\<lambda>i. a ! i) idxs) else Inl IndexError)"

text \<open>\<open>a[mask]\<close> with a boolean mask: the entries where the mask is true; a mask of
  another length raises \<open>IndexError\<close>.\<close>

definition take_mask :: "'a list \<Rightarrow> bool list \<Rightarrow> error + 'a list" where
  "take_mask a msk =
     (if length msk = length a then Inr (map fst (filter snd (zip a msk))) else Inl IndexError)"

text \<open>\<open>np.sum\<close> of a boolean mask: the number of true entries.\<close>

definition np_sum :: "bool list \<Rightarrow> nat" where
  "np_sum msk = length (filter (\<lambda>b. b) msk)"

text \<open>\<open>np.ceil\<close>: the least integer not below a finite value, which is a double again;
  NaN and the infinities are unchanged.\<close>

fun np_ceil :: "pyfloat \<Rightarrow> pyfloat" where
  "np_ceil (Fin r) = Fin (of_int \<lceil>r\<rceil>)"
| "np_ceil x = x"

text \<open>The product of a float and a number of rows, \<open>m * X.shape[0]\<close>: the number of rows
  becomes a float and the exact product is rounded to a double. (An overflow to an
  infinity is left out: a finite factor of \<open>fit\<close> is below 1.)\<close>

fun float_mul :: "('e, 'g, 'x, 'y) env \<Rightarrow> pyfloat \<Rightarrow> nat \<Rightarrow> pyfloat" where
  "float_mul E (Fin r) n = Fin (round_double E (r * of_nat n))"
| "float_mul E NaN n = NaN"
| "float_mul E PInf n = (if n = 0 then NaN else PInf)"
| "float_mul E NInf n = (if n = 0 then NaN else NInf)"

subsection \<open>\<open>RANSAC.fit\<close>\<close>

text \<open>Lines 138 to 143: the working estimator is a clone of the prototype, or a new
  \<open>LinearRegression\<close> when \<open>y\<close> is of a float dtype; the result is its address.\<close>

definition resolve_base_estimator ::
  "('e, 'g, 'x, 'y) env \<Rightarrow> ('e, 'x, 'y) ransac \<Rightarrow> 'y ndarray \<Rightarrow> ('e, 'g, 'x, 'y) world
     \<Rightarrow> (error + nat) \<times> ('e, 'g, 'x, 'y) world" where
  "resolve_base_estimator E self y w =
     (case base_estimator self of
        Some p \<Rightarrow> (case clone_obj E p w of (b, w') \<Rightarrow> (Inr b, w'))
      | None \<Rightarrow>
          if dtype_kind y = CHR ''f''
          then (case new_LinearRegression E w of (b, w') \<Rightarrow> (Inr b, w'))
          else (Inl NoBaseEstimator, w))"

text \<open>Lines 145 to 151: the number of rows to draw in each trial.\<close>

definition resolve_min_n_samples ::
  "('e, 'g, 'x, 'y) env \<Rightarrow> ('e, 'x, 'y) ransac \<Rightarrow> 'x list \<Rightarrow> error + pyfloat" where
  "resolve_min_n_samples E self X =
     (if fl_less (Fin 0) (min_n_samples self) \<and> fl_less (min_n_samples self) (Fin 1)
      then Inr (np_ceil (float_mul E (min_n_samples self) (length X)))
      else if fl_ge (min_n_samples self) (Fin 1) then Inr (min_n_samples self)
      else Inl BadMinNSamples)"

text \<open>The local variables of \<open>fit\<close> that the loop reads and writes. \<open>n_trials\<close> is
  unbound (\<open>None\<close>) until the loop binds it.\<close>

record ('x, 'y) locals =
  best_n_inliers :: nat
  best_score :: pyfloat
  best_inlier_mask :: "bool list option"
  best_inlier_X :: "'x list option"
  best_inlier_y :: "'y list option"
  n_trials :: "nat option"

text \<open>Lines 155 to 159.\<close>

definition init_locals :: "('x, 'y) locals" where
  "init_locals =
     \<lparr>best_n_inliers = 0, best_score = PInf, best_inlier_mask = None,
      best_inlier_X = None, best_inlier_y = None, n_trials = None\<rparr>"

text \<open>How one run of the loop body ends: at a \<open>continue\<close> or at the end of the body, at
  the \<open>break\<close>, or with an exception.\<close>

datatype 'a flow = Continue 'a | Break 'a | Raise error

text \<open>Lines 187 to 223, the rest of the body once the model has passed both checks:
  residuals, the inlier mask, and the comparison with the best sample so far. \<open>b\<close> is the
  address of the working estimator.\<close>

definition consensus ::
  "('e, 'g, 'x, 'y) env \<Rightarrow> ('e, 'x, 'y) ransac \<Rightarrow> 'x list \<Rightarrow> 'y list \<Rightarrow> nat
     \<Rightarrow> ('x, 'y) locals \<Rightarrow> ('e, 'g, 'x, 'y) world
     \<Rightarrow> ('x, 'y) locals flow \<times> ('e, 'g, 'x, 'y) world" where
  "consensus E self X y b L w =
     (let w1 = log_call (CallPredict X) w in
      (case predict E (ests w1 ! b) X of
        None \<Rightarrow> (Raise Propagated, w1)
      | Some p \<Rightarrow>
      (case abs_sub E p y of
        None \<Rightarrow> (Raise Propagated, w1)
      | Some rsample_residuals \<Rightarrow>
      (let rsample_inlier_mask =
             map (\<lambda>r. fl_less r (residual_threshold self)) rsample_residuals;
           rsample_n_inliers = np_sum rsample_inlier_mask
       in
       if rsample_n_inliers < best_n_inliers L then (Continue L, w1)
       else
      (case take_mask [0..<length X] rsample_inlier_mask of
        Inl e \<Rightarrow> (Raise e, w1)
      | Inr rsample_inlier_idxs \<Rightarrow>
      (case take_rows X rsample_inlier_idxs of
        Inl e \<Rightarrow> (Raise e, w1)
      | Inr rsample_inlier_X \<Rightarrow>
      (case take_rows y rsample_inlier_idxs of
        Inl e \<Rightarrow> (Raise e, w1)
      | Inr rsample_inlier_y \<Rightarrow>
      (let w2 = log_call (CallScore rsample_inlier_X rsample_inlier_y) w1 in
      (case score E (ests w2 ! b) rsample_inlier_X rsample_inlier_y of
        None \<Rightarrow> (Raise Propagated, w2)
      | Some rsample_score \<Rightarrow>
       if rsample_n_inliers = best_n_inliers L \<and> fl_less rsample_score (best_score L)
       then (Continue L, w2)
       else
      (let L' = L\<lparr>best_n_inliers := rsample_n_inliers,
                  best_score := rsample_score,
                  best_inlier_mask := Some rsample_inlier_mask,
                  best_inlier_X := Some rsample_inlier_X,
                  best_inlier_y := Some rsample_inlier_y\<rparr>
       in
       if fl_ge (Fin (of_nat (best_n_inliers L'))) (stop_n_inliers self)
          \<or> fl_ge (best_score L') (stop_score self)
       then (Break L', w2)
       else (Continue L', w2)))))))))))"

text \<open>Lines 170 to 185, then \<open>consensus\<close>: one run of the loop body. \<open>rs\<close> is the
  generator, \<open>k\<close> the resolved \<open>min_n_samples\<close>.\<close>

definition trial ::
  "('e, 'g, 'x, 'y) env \<Rightarrow> ('e, 'x, 'y) ransac \<Rightarrow> 'x list \<Rightarrow> 'y list \<Rightarrow> nat \<Rightarrow> gen_ref
     \<Rightarrow> pyfloat \<Rightarrow> ('x, 'y) locals \<Rightarrow> ('e, 'g, 'x, 'y) world
     \<Rightarrow> ('x, 'y) locals flow \<times> ('e, 'g, 'x, 'y) world" where
  "trial E self X y b rs k L w =
     (let n_samples = length X;
          w1 = log_call (CallRandint n_samples k) w
      in
      (case randint E (gen_get w1 rs) n_samples k of
        None \<Rightarrow> (Raise Propagated, w1)
      | Some (random_idxs, g') \<Rightarrow>
      (let w2 = gen_set rs g' w1 in
      (case take_rows X random_idxs of
        Inl e \<Rightarrow> (Raise e, w2)
      | Inr rsample_X \<Rightarrow>
      (case take_rows y random_idxs of
        Inl e \<Rightarrow> (Raise e, w2)
      | Inr rsample_y \<Rightarrow>
      (let w3 = (case is_data_valid self of
                   None \<Rightarrow> w2
                 | Some f \<Rightarrow> log_call (CallIsDataValid X y) w2)
       in
       if (case is_data_valid self of None \<Rightarrow> False | Some f \<Rightarrow> \<not> f X y)
       then (Continue L, w3)
       else
      (let w4 = log_call (CallFit rsample_X rsample_y) w3 in
      (case est_fit E (ests w4 ! b) rsample_X rsample_y of
        None \<Rightarrow> (Raise Propagated, w4)
      | Some e' \<Rightarrow>
      (let w5 = est_set b e' w4;
           w6 = (case is_model_valid self of
                   None \<Rightarrow> w5
                 | Some f \<Rightarrow> log_call (CallIsModelValid rsample_X rsample_y) w5)
       in
       if (case is_model_valid self of
             None \<Rightarrow> False
           | Some f \<Rightarrow> \<not> f (ests w5 ! b) rsample_X rsample_y)
       then (Continue L, w6)
       else consensus E self X y b L w6)))))))))"

text \<open>Line 168: the loop over \<open>range(self.max_trials)\<close>, which binds \<open>n_trials\<close> at
  the start of every run of the body.\<close>

fun trials ::
  "('e, 'g, 'x, 'y) env \<Rightarrow> ('e, 'x, 'y) ransac \<Rightarrow> 'x list \<Rightarrow> 'y list \<Rightarrow> nat \<Rightarrow> gen_ref
     \<Rightarrow> pyfloat \<Rightarrow> nat list \<Rightarrow> ('x, 'y) locals \<Rightarrow> ('e, 'g, 'x, 'y) world
     \<Rightarrow> (error + ('x, 'y) locals) \<times> ('e, 'g, 'x, 'y) world" where
  "trials E self X y b rs k [] L w = (Inr L, w)"
| "trials E self X y b rs k (i # is) L w =
     (case trial E self X y b rs k (L\<lparr>n_trials := Some i\<rparr>) w of
        (Continue L', w') \<Rightarrow> trials E self X y b rs k is L' w'
      | (Break L', w') \<Rightarrow> (Inr L', w')
      | (Raise e, w') \<Rightarrow> (Inl e, w'))"

text \<open>Lines 225 to 234: the check that some sample was kept, the final fit on its inliers
  and the assignment of the fitted attributes. An estimator's \<open>fit\<close> given \<open>None\<close> for
  data raises.\<close>

definition finish ::
  "('e, 'g, 'x, 'y) env \<Rightarrow> ('e, 'x, 'y) ransac \<Rightarrow> nat \<Rightarrow> ('x, 'y) locals
     \<Rightarrow> ('e, 'g, 'x, 'y) world
     \<Rightarrow> error option \<times> ('e, 'x, 'y) ransac \<times> ('e, 'g, 'x, 'y) world" where
  "finish E self b L w =
     (case best_inlier_mask L of
        None \<Rightarrow> (Some NoConsensus, self, w)
      | Some msk \<Rightarrow>
      (case (best_inlier_X L, best_inlier_y L) of
        (Some bX, Some by) \<Rightarrow>
          (let w1 = log_call (CallFit bX by) w in
          (case est_fit E (ests w1 ! b) bX by of
             None \<Rightarrow> (Some Propagated, self, w1)
           | Some e' \<Rightarrow>
          (let w2 = est_set b e' w1;
               self1 = self\<lparr>estimator' := Some b\<rparr>
           in
          (case n_trials L of
             None \<Rightarrow> (Some UnboundLocalError, self1, w2)
           | Some n \<Rightarrow>
               (None, self1\<lparr>n_trials' := Some (n + 1), inlier_mask' := Some msk\<rparr>, w2)))))
      | _ \<Rightarrow> (Some Propagated, self, w)))"

text \<open>\<open>fit\<close>: the exception it raises (\<open>None\<close> when it returns), the object and the store
  afterwards. \<open>atleast2d_or_csr\<close> and \<open>np.asarray\<close> leave a list of rows as it is.\<close>

definition fit ::
  "('e, 'g, 'x, 'y) env \<Rightarrow> ('e, 'x, 'y) ransac \<Rightarrow> 'x list \<Rightarrow> 'y ndarray
     \<Rightarrow> ('e, 'g, 'x, 'y) world
     \<Rightarrow> error option \<times> ('e, 'x, 'y) ransac \<times> ('e, 'g, 'x, 'y) world" where
  "fit E self X y w =
     (case resolve_base_estimator E self y w of
        (Inl e, w1) \<Rightarrow> (Some e, self, w1)
      | (Inr b, w1) \<Rightarrow>
      (case resolve_min_n_samples E self X of
        Inl e \<Rightarrow> (Some e, self, w1)
      | Inr k \<Rightarrow>
      (case check_random_state E (random_state self) w1 of
        (rs, w2) \<Rightarrow>
      (case trials E self X (items y) b rs k [0..<nat (max_trials self)] init_locals w2 of
        (Inl e, w3) \<Rightarrow> (Some e, self, w3)
      | (Inr L, w3) \<Rightarrow> finish E self b L w3))))"

text \<open>A reference to a generator is valid in a store that holds the generator.\<close>

definition gen_valid :: "('e, 'g, 'x, 'y) world \<Rightarrow> gen_ref \<Rightarrow> bool" where
  "gen_valid w r = (case r of GlobalGen \<Rightarrow> True | GenObj a \<Rightarrow> a < length (gens w))"

text \<open>The frame of the loop: what a store keeps when only the estimator at \<open>b\<close> and the
  generator \<open>rs\<close> may be written.\<close>

definition frame ::
  "nat \<Rightarrow> gen_ref \<Rightarrow> ('e, 'g, 'x, 'y) world \<Rightarrow> ('e, 'g, 'x, 'y) world \<Rightarrow> bool" where
  "frame b rs w w' \<longleftrightarrow>
     length (ests w') = length (ests w) \<and> (\<forall>a. a \<noteq> b \<longrightarrow> ests w' ! a = ests w ! a)
     \<and> length (gens w') = length (gens w)
     \<and> (\<forall>a. rs \<noteq> GenObj a \<longrightarrow> gens w' ! a = gens w ! a)
     \<and> (rs \<noteq> GlobalGen \<longrightarrow> global_gen w' = global_gen w)"

text \<open>The draws in a log of calls: the number of rows and the size of each call of
  \<open>randint\<close>.\<close>

fun draw_of :: "('x, 'y) call \<Rightarrow> (nat \<times> pyfloat) option" where
  "draw_of (CallRandint n k) = Some (n, k)"
| "draw_of _ = None"

definition draws :: "('x, 'y) call list \<Rightarrow> (nat \<times> pyfloat) list" where
  "draws cs = List.map_filter draw_of cs"

subsection \<open>A small instance\<close>

text \<open>
  Collaborators to run \<open>fit\<close> on: an estimator whose state counts the rows it was fitted
  on, which predicts \<open>y = x\<close> and scores a data set by its number of rows; a generator
  whose state is a counter, drawing consecutive indices modulo the number of rows; a
  rounding that leaves every value as it is. The data are four rows, of which the first two lie on \<open>y = x\<close>.
\<close>

definition demo_env :: "(nat, nat, int, int) env" where
  "demo_env =
     \<lparr>clone = (\<lambda>e. e),
      LinearRegression = 0,
      RandomState = (\<lambda>s. nat \<bar>s\<bar>),
      randint = (\<lambda>g n k. case k of
                   Fin r \<Rightarrow> if n = 0 then None
                            else Some (map (\<lambda>j. (g + j) mod n) [0..<nat \<lfloor>r\<rfloor>], g + 1)
                 | _ \<Rightarrow> None),
      round_double = (\<lambda>x. x),
      est_fit = (\<lambda>e xs ys. Some (e + length xs)),
      predict = (\<lambda>e X. Some X),
      abs_sub = (\<lambda>p y. if length p = length y
                         then Some (map2 (\<lambda>a b. Fin (of_int \<bar>a - b\<bar>)) p y) else None),
      score = (\<lambda>e xs ys. Some (Fin (of_nat (length xs))))\<rparr>"

definition demo_self :: "(nat, int, int) ransac" where
  "demo_self =
     \<lparr>base_estimator = None, min_n_samples = Fin (1 / 2), residual_threshold = Fin 1,
      is_data_valid = None, is_model_valid = None, max_trials = 3,
      stop_n_inliers = PInf, stop_score = PInf, random_state = RSSeed 1,
      estimator' = None, n_trials' = None, inlier_mask' = None\<rparr>"

text \<open>The same object with a threshold that no residual is below.\<close>

definition demo_self_zero :: "(nat, int, int) ransac" where
  "demo_self_zero = demo_self\<lparr>residual_threshold := Fin 0\<rparr>"

definition demo_X :: "int list" where
  "demo_X = [1, 2, 3, 4]"

definition demo_y :: "int ndarray" where
  "demo_y = \<lparr>dtype_kind = CHR ''f'', items = [1, 2, 7, 9]\<rparr>"

text \<open>A store with one estimator object and one generator object.\<close>

definition demo_world :: "(nat, nat, int, int) world" where
  "demo_world = \<lparr>ests = [0], gens = [5], global_gen = 0, calls = []\<rparr>"

text \<open>The same object with a check of the data that accepts at most two rows, and a stop
  condition that every number of inliers meets.\<close>

definition demo_self_gate :: "(nat, int, int) ransac" where
  "demo_self_gate =
     demo_self\<lparr>is_data_valid := Some (\<lambda>X y. length X \<le> 2), stop_n_inliers := Fin 0\<rparr>"

text \<open>The same object with a generator object for \<open>random_state\<close>; with a prototype for
  \<open>base_estimator\<close>; and, under the threshold of zero, with the attributes of an earlier
  fit.\<close>

definition demo_self_instance :: "(nat, int, int) ransac" where
  "demo_self_instance = demo_self\<lparr>random_state := RSInstance 0\<rparr>"

definition demo_self_prototype :: "(nat, int, int) ransac" where
  "demo_self_prototype = demo_self\<lparr>base_estimator := Some 0\<rparr>"

definition demo_fitted :: "(nat, int, int) ransac" where
  "demo_fitted =
     demo_self_zero\<lparr>estimator' := Some 0, n_trials' := Some 3,
                    inlier_mask' := Some [True, True, False, False]\<rparr>"

text \<open>The store after \<open>fit\<close> has run on the object with the prototype.\<close>

definition demo_world_fitted :: "(nat, nat, int, int) world" where
  "demo_world_fitted =
     \<lparr>ests = [0, 8], gens = [5, 4], global_gen = 0,
      calls = [CallClone 0,
               CallRandint 4 (Fin 2), CallFit [2, 3] [2, 7],
               CallPredict [1, 2, 3, 4], CallScore [1, 2] [1, 2],
               CallRandint 4 (Fin 2), CallFit [3, 4] [7, 9],
               CallPredict [1, 2, 3, 4], CallScore [1, 2] [1, 2],
               CallRandint 4 (Fin 2), CallFit [4, 1] [9, 1],
               CallPredict [1, 2, 3, 4], CallScore [1, 2] [1, 2],
               CallFit [1, 2] [1, 2]]\<rparr>"

text \<open>The same collaborators with an estimator whose \<open>score\<close> raises on no rows.\<close>

definition demo_env_strict :: "(nat, nat, int, int) env" where
  "demo_env_strict =
     demo_env\<lparr>score := (\<lambda>e xs ys. if xs = [] then None
                                   else Some (Fin (of_nat (length xs))))\<rparr>"

text \<open>The variables of the loop after an earlier trial was kept, with \<open>n\<close> inliers and the
  score \<open>s\<close>.\<close>

definition demo_best :: "nat \<Rightarrow> pyfloat \<Rightarrow> (int, int) locals" where
  "demo_best n s =
     \<lparr>best_n_inliers = n, best_score = s,
      best_inlier_mask = Some [False, True, True, False],
      best_inlier_X = Some [2, 3], best_inlier_y = Some [2, 7], n_trials = Some 1\<rparr>"

text \<open>The same targets with an integer dtype; the same object with a \<open>min_n_samples\<close> of
  a third, of three, and of zero.\<close>

definition demo_y_int :: "int ndarray" where
  "demo_y_int = demo_y\<lparr>dtype_kind := CHR ''i''\<rparr>"

definition demo_self_third :: "(nat, int, int) ransac" where
  "demo_self_third = demo_self\<lparr>min_n_samples := Fin (1 / 3)\<rparr>"

definition demo_self_three :: "(nat, int, int) ransac" where
  "demo_self_three = demo_self\<lparr>min_n_samples := Fin 3\<rparr>"

definition demo_self_nought :: "(nat, int, int) ransac" where
  "demo_self_nought = demo_self\<lparr>min_n_samples := Fin 0\<rparr>"

section \<open>Properties\<close>

lemmas demo_defs =
  demo_env_def demo_self_def demo_self_zero_def demo_X_def demo_y_def demo_world_def

lemmas fit_eval_defs =
  fit_def resolve_base_estimator_def resolve_min_n_samples_def new_LinearRegression_def
  clone_obj_def check_random_state_def trial_def consensus_def finish_def init_locals_def
  log_call_def gen_get_def gen_set_def est_set_def take_rows_def take_mask_def np_sum_def
  upt_conv_Cons Let_def

subsection \<open>The comparison with the best sample\<close>

lemma fl_less_PInf: "fl_less s PInf \<longleftrightarrow> s \<noteq> PInf \<and> s \<noteq> NaN"
  by (cases s) simp_all

text \<open>What \<open>consensus\<close> does on a trial that is evaluated: the prediction and the residuals
  are there, the inlier rows can be taken and the estimator scores them.\<close>

lemma consensus_eval:
  assumes "predict E (ests w ! b) X = Some p"
      and "abs_sub E p y = Some res"
      and "msk = map (\<lambda>r. fl_less r (residual_threshold self)) res"
      and "take_mask [0..<length X] msk = Inr idxs"
      and "take_rows X idxs = Inr iX"
      and "take_rows y idxs = Inr iy"
      and "score E (ests w ! b) iX iy = Some s"
  shows "consensus E self X y b L w =
     (if np_sum msk < best_n_inliers L then (Continue L, log_call (CallPredict X) w)
      else if np_sum msk = best_n_inliers L \<and> fl_less s (best_score L)
      then (Continue L, log_call (CallScore iX iy) (log_call (CallPredict X) w))
      else (let L' = L\<lparr>best_n_inliers := np_sum msk, best_score := s,
                       best_inlier_mask := Some msk, best_inlier_X := Some iX,
                       best_inlier_y := Some iy\<rparr>
            in (if fl_ge (Fin (of_nat (np_sum msk))) (stop_n_inliers self)
                   \<or> fl_ge s (stop_score self)
                then Break L' else Continue L',
                log_call (CallScore iX iy) (log_call (CallPredict X) w))))"
  using assms by (simp add: consensus_def log_call_def Let_def)

lemma demo_evaluated:
  "predict demo_env (ests demo_world ! 0) demo_X = Some [1, 2, 3, 4]"
  "abs_sub demo_env [1, 2, 3, 4] (items demo_y) = Some [Fin 0, Fin 0, Fin 4, Fin 5]"
  "[True, True, False, False]
     = map (\<lambda>r. fl_less r (residual_threshold demo_self)) [Fin 0, Fin 0, Fin 4, Fin 5]"
  "take_mask [0..<length demo_X] [True, True, False, False] = Inr [0, 1]"
  "take_rows demo_X [0, 1] = Inr [1, 2]"
  "take_rows (items demo_y) [0, 1] = Inr [1, 2]"
  "score demo_env (ests demo_world ! 0) [1, 2] [1, 2] = Some (Fin 2)"
  by (simp_all add: demo_defs take_mask_def take_rows_def upt_conv_Cons)

text \<open>The trial of the instance when the estimator's \<open>score\<close> raises on no rows, under a
  threshold of zero: it has no inlier.\<close>

lemma demo_strict_evaluated:
  "predict demo_env_strict (ests demo_world ! 0) demo_X = Some [1, 2, 3, 4]"
  "abs_sub demo_env_strict [1, 2, 3, 4] (items demo_y) = Some [Fin 0, Fin 0, Fin 4, Fin 5]"
  "[False, False, False, False]
     = map (\<lambda>r. fl_less r (residual_threshold demo_self_zero)) [Fin 0, Fin 0, Fin 4, Fin 5]"
  by (simp_all add: demo_defs demo_env_strict_def)

text \<open>
  C1. Take a trial whose residuals are there, with inlier mask \<open>msk\<close>. When its number of
  inliers is below the best one it is skipped, the best sample left as it is and the loop
  continued, and no score is asked for. When it is not below, and the inlier rows can be
  taken and are scored \<open>s\<close>, it is skipped exactly when its number of inliers equals the
  best one and \<open>s\<close> is below the best score. In every other case the best number of
  inliers, score, mask and inlier rows are overwritten with the trial's: so with more
  inliers whatever the score, and with as many inliers and a score that is not below the
  best one.
\<close>

theorem trial_comparison_policy:
  assumes "predict E (ests w ! b) X = Some p"
      and "abs_sub E p y = Some res"
      and "msk = map (\<lambda>r. fl_less r (residual_threshold self)) res"
  shows "(np_sum msk < best_n_inliers L
            \<longrightarrow> consensus E self X y b L w = (Continue L, log_call (CallPredict X) w))
       \<and> (best_n_inliers L \<le> np_sum msk
            \<and> take_mask [0..<length X] msk = Inr idxs
            \<and> take_rows X idxs = Inr iX
            \<and> take_rows y idxs = Inr iy
            \<and> score E (ests w ! b) iX iy = Some s
            \<longrightarrow> fst (consensus E self X y b L w) =
                 (if np_sum msk = best_n_inliers L \<and> fl_less s (best_score L)
                  then Continue L
                  else (let L' = L\<lparr>best_n_inliers := np_sum msk, best_score := s,
                                   best_inlier_mask := Some msk, best_inlier_X := Some iX,
                                   best_inlier_y := Some iy\<rparr>
                        in if fl_ge (Fin (of_nat (np_sum msk))) (stop_n_inliers self)
                              \<or> fl_ge s (stop_score self)
                           then Break L' else Continue L')))"
proof (intro conjI impI)
  assume n: "np_sum msk < best_n_inliers L"
  have "ests (log_call (CallPredict X) w) = ests w"
    by (simp add: log_call_def)
  with assms n show "consensus E self X y b L w = (Continue L, log_call (CallPredict X) w)"
    by (simp add: consensus_def Let_def)
next
  assume a: "best_n_inliers L \<le> np_sum msk
            \<and> take_mask [0..<length X] msk = Inr idxs
            \<and> take_rows X idxs = Inr iX
            \<and> take_rows y idxs = Inr iy
            \<and> score E (ests w ! b) iX iy = Some s"
  then have h: "take_mask [0..<length X] msk = Inr idxs" "take_rows X idxs = Inr iX"
    "take_rows y idxs = Inr iy" "score E (ests w ! b) iX iy = Some s"
    by blast+
  have "consensus E self X y b L w =
     (if np_sum msk < best_n_inliers L then (Continue L, log_call (CallPredict X) w)
      else if np_sum msk = best_n_inliers L \<and> fl_less s (best_score L)
      then (Continue L, log_call (CallScore iX iy) (log_call (CallPredict X) w))
      else (let L' = L\<lparr>best_n_inliers := np_sum msk, best_score := s,
                       best_inlier_mask := Some msk, best_inlier_X := Some iX,
                       best_inlier_y := Some iy\<rparr>
            in (if fl_ge (Fin (of_nat (np_sum msk))) (stop_n_inliers self)
                   \<or> fl_ge s (stop_score self)
                then Break L' else Continue L',
                log_call (CallScore iX iy) (log_call (CallPredict X) w))))"
    by (rule consensus_eval [OF assms h])
  with a show "fst (consensus E self X y b L w) =
                 (if np_sum msk = best_n_inliers L \<and> fl_less s (best_score L)
                  then Continue L
                  else (let L' = L\<lparr>best_n_inliers := np_sum msk, best_score := s,
                                   best_inlier_mask := Some msk, best_inlier_X := Some iX,
                                   best_inlier_y := Some iy\<rparr>
                        in if fl_ge (Fin (of_nat (np_sum msk))) (stop_n_inliers self)
                              \<or> fl_ge s (stop_score self)
                           then Break L' else Continue L'))"
    by (simp add: Let_def)
qed

theorem trial_comparison_policy_witness:
  "np_sum [False, False, False, False] < best_n_inliers (demo_best 2 (Fin 2))
   \<and> score demo_env_strict (ests demo_world ! 0) [] [] = None
   \<and> consensus demo_env_strict demo_self_zero demo_X (items demo_y) 0 (demo_best 2 (Fin 2))
        demo_world
       = (Continue (demo_best 2 (Fin 2)), log_call (CallPredict demo_X) demo_world)
   \<and> np_sum [True, True, False, False] = best_n_inliers (demo_best 2 (Fin 5))
   \<and> fl_less (Fin 2) (best_score (demo_best 2 (Fin 5)))
   \<and> fst (consensus demo_env demo_self demo_X (items demo_y) 0 (demo_best 2 (Fin 5))
        demo_world)
       = Continue (demo_best 2 (Fin 5))
   \<and> np_sum [True, True, False, False] = best_n_inliers (demo_best 2 (Fin 2))
   \<and> best_score (demo_best 2 (Fin 2)) = Fin 2
   \<and> fst (consensus demo_env demo_self demo_X (items demo_y) 0 (demo_best 2 (Fin 2))
        demo_world)
       = Continue \<lparr>best_n_inliers = 2, best_score = Fin 2,
                   best_inlier_mask = Some [True, True, False, False],
                   best_inlier_X = Some [1, 2], best_inlier_y = Some [1, 2],
                   n_trials = Some 1\<rparr>
   \<and> best_n_inliers (demo_best 1 (Fin 9)) < np_sum [True, True, False, False]
   \<and> fl_less (Fin 2) (best_score (demo_best 1 (Fin 9)))
   \<and> fst (consensus demo_env demo_self demo_X (items demo_y) 0 (demo_best 1 (Fin 9))
        demo_world)
       = Continue \<lparr>best_n_inliers = 2, best_score = Fin 2,
                   best_inlier_mask = Some [True, True, False, False],
                   best_inlier_X = Some [1, 2], best_inlier_y = Some [1, 2],
                   n_trials = Some 1\<rparr>"
proof -
  have n0: "np_sum [False, False, False, False] < best_n_inliers (demo_best 2 (Fin 2))"
    by (simp add: np_sum_def demo_best_def)
  have sc: "score demo_env_strict (ests demo_world ! 0) [] [] = None"
    by (simp add: demo_env_strict_def)
  from trial_comparison_policy [OF demo_strict_evaluated, of "demo_best 2 (Fin 2)"] n0
  have c1: "consensus demo_env_strict demo_self_zero demo_X (items demo_y) 0
              (demo_best 2 (Fin 2)) demo_world
       = (Continue (demo_best 2 (Fin 2)), log_call (CallPredict demo_X) demo_world)"
    by blast
  note ev = trial_comparison_policy [OF demo_evaluated(1-3), THEN conjunct2, rule_format,
      OF conjI [OF _ conjI [OF demo_evaluated(4)
        conjI [OF demo_evaluated(5) conjI [OF demo_evaluated(6) demo_evaluated(7)]]]]]
  have n2: "np_sum [True, True, False, False] = best_n_inliers (demo_best 2 s)" for s
    by (simp add: np_sum_def demo_best_def)
  have n1: "best_n_inliers (demo_best 1 (Fin 9)) < np_sum [True, True, False, False]"
    by (simp add: np_sum_def demo_best_def)
  have s5: "fl_less (Fin 2) (best_score (demo_best 2 (Fin 5)))"
    and s2: "best_score (demo_best 2 (Fin 2)) = Fin 2"
    and s9: "fl_less (Fin 2) (best_score (demo_best 1 (Fin 9)))"
    by (simp_all add: demo_best_def)
  have c2: "fst (consensus demo_env demo_self demo_X (items demo_y) 0 (demo_best 2 (Fin 5))
        demo_world) = Continue (demo_best 2 (Fin 5))"
    using ev [of "demo_best 2 (Fin 5)"] n2 [of "Fin 5"] s5 by simp
  have c3: "fst (consensus demo_env demo_self demo_X (items demo_y) 0 (demo_best 2 (Fin 2))
        demo_world)
       = Continue \<lparr>best_n_inliers = 2, best_score = Fin 2,
                   best_inlier_mask = Some [True, True, False, False],
                   best_inlier_X = Some [1, 2], best_inlier_y = Some [1, 2],
                   n_trials = Some 1\<rparr>"
    using ev [of "demo_best 2 (Fin 2)"]
    by (simp add: np_sum_def demo_best_def demo_self_def)
  have c4: "fst (consensus demo_env demo_self demo_X (items demo_y) 0 (demo_best 1 (Fin 9))
        demo_world)
       = Continue \<lparr>best_n_inliers = 2, best_score = Fin 2,
                   best_inlier_mask = Some [True, True, False, False],
                   best_inlier_X = Some [1, 2], best_inlier_y = Some [1, 2],
                   n_trials = Some 1\<rparr>"
    using ev [of "demo_best 1 (Fin 9)"]
    by (simp add: np_sum_def demo_best_def demo_self_def)
  from n0 sc c1 n2 s5 c2 s2 c3 n1 s9 c4 show ?thesis by blast
qed

text \<open>The same trial under a threshold of zero has no inlier, and a finite score.\<close>

lemma demo_zero_evaluated:
  "predict demo_env (ests demo_world ! 0) demo_X = Some [1, 2, 3, 4]"
  "abs_sub demo_env [1, 2, 3, 4] (items demo_y) = Some [Fin 0, Fin 0, Fin 4, Fin 5]"
  "[False, False, False, False]
     = map (\<lambda>r. fl_less r (residual_threshold demo_self_zero)) [Fin 0, Fin 0, Fin 4, Fin 5]"
  "take_mask [0..<length demo_X] [False, False, False, False] = Inr []"
  "take_rows demo_X [] = Inr []"
  "take_rows (items demo_y) [] = Inr []"
  "score demo_env (ests demo_world ! 0) [] [] = Some (Fin 0)"
  by (simp_all add: demo_defs take_mask_def take_rows_def upt_conv_Cons)

text \<open>
  C2 as stated fails: against the initial state (best count 0, best score \<open>+\<infinity>\<close>) the
  evaluated trial with no inlier and the finite score 0 is skipped. The score was computed
  (the call is in the log), and the best mask is still unset.
\<close>

theorem unset_best_zero_inliers_counterexample:
  "best_n_inliers (init_locals :: (int, int) locals) = 0
   \<and> best_score (init_locals :: (int, int) locals) = PInf
   \<and> np_sum [False, False, False, False] = 0
   \<and> score demo_env (ests demo_world ! 0) [] [] = Some (Fin 0)
   \<and> consensus demo_env demo_self_zero demo_X (items demo_y) 0 init_locals demo_world
       = (Continue init_locals,
          demo_world\<lparr>calls := [CallPredict [1, 2, 3, 4], CallScore [] []]\<rparr>)
   \<and> best_inlier_mask (init_locals :: (int, int) locals) = None"
proof -
  have "consensus demo_env demo_self_zero demo_X (items demo_y) 0 init_locals demo_world
       = (Continue init_locals,
          log_call (CallScore [] []) (log_call (CallPredict demo_X) demo_world))"
    by (simp add: consensus_eval [OF demo_zero_evaluated] np_sum_def init_locals_def)
  then show ?thesis
    using demo_zero_evaluated(7)
    by (simp add: np_sum_def init_locals_def log_call_def demo_world_def demo_X_def)
qed

text \<open>
  C2, amended. Against the unset best state (best count 0, best score \<open>+\<infinity>\<close>) an
  evaluated trial with at least one inlier is accepted as the new best whatever its score;
  a trial with no inlier is accepted only when its score is \<open>+\<infinity>\<close> or NaN, and is skipped
  when its score is finite or \<open>-\<infinity>\<close>.
\<close>

theorem unset_best_policy:
  assumes "predict E (ests w ! b) X = Some p"
      and "abs_sub E p y = Some res"
      and "msk = map (\<lambda>r. fl_less r (residual_threshold self)) res"
      and "take_mask [0..<length X] msk = Inr idxs"
      and "take_rows X idxs = Inr iX"
      and "take_rows y idxs = Inr iy"
      and "score E (ests w ! b) iX iy = Some s"
      and "best_n_inliers L = 0" and "best_score L = PInf"
  shows "fst (consensus E self X y b L w) =
     (if np_sum msk = 0 \<and> s \<noteq> PInf \<and> s \<noteq> NaN
      then Continue L
      else (let L' = L\<lparr>best_n_inliers := np_sum msk, best_score := s,
                       best_inlier_mask := Some msk, best_inlier_X := Some iX,
                       best_inlier_y := Some iy\<rparr>
            in if fl_ge (Fin (of_nat (np_sum msk))) (stop_n_inliers self)
                  \<or> fl_ge s (stop_score self)
               then Break L' else Continue L'))"
  using assms(8,9)
  by (auto simp add: consensus_eval [OF assms(1-7)] Let_def fl_less_PInf)

theorem unset_best_policy_witness:
  "predict demo_env (ests demo_world ! 0) demo_X = Some [1, 2, 3, 4]
   \<and> abs_sub demo_env [1, 2, 3, 4] (items demo_y) = Some [Fin 0, Fin 0, Fin 4, Fin 5]
   \<and> [True, True, False, False]
       = map (\<lambda>r. fl_less r (residual_threshold demo_self)) [Fin 0, Fin 0, Fin 4, Fin 5]
   \<and> take_mask [0..<length demo_X] [True, True, False, False] = Inr [0, 1]
   \<and> take_rows demo_X [0, 1] = Inr [1, 2]
   \<and> take_rows (items demo_y) [0, 1] = Inr [1, 2]
   \<and> score demo_env (ests demo_world ! 0) [1, 2] [1, 2] = Some (Fin 2)
   \<and> best_n_inliers (init_locals :: (int, int) locals) = 0
   \<and> best_score (init_locals :: (int, int) locals) = PInf
   \<and> fst (consensus demo_env demo_self demo_X (items demo_y) 0 init_locals demo_world)
       = Continue (init_locals\<lparr>best_n_inliers := 2, best_score := Fin 2,
                   best_inlier_mask := Some [True, True, False, False],
                   best_inlier_X := Some [1, 2], best_inlier_y := Some [1, 2]\<rparr>)"
proof -
  have h8: "best_n_inliers (init_locals :: (int, int) locals) = 0"
   and h9: "best_score (init_locals :: (int, int) locals) = PInf"
    by (simp_all add: init_locals_def)
  have "fst (consensus demo_env demo_self demo_X (items demo_y) 0 init_locals demo_world)
       = Continue (init_locals\<lparr>best_n_inliers := 2, best_score := Fin 2,
                   best_inlier_mask := Some [True, True, False, False],
                   best_inlier_X := Some [1, 2], best_inlier_y := Some [1, 2]\<rparr>)"
    using unset_best_policy [OF demo_evaluated h8 h9]
    by (simp add: np_sum_def demo_self_def)
  with demo_evaluated h8 h9 show ?thesis by blast
qed

subsection \<open>What one run of the loop body does to the variables and the store\<close>

lemma take_rows_error: "take_rows a idxs = Inl e \<Longrightarrow> e = IndexError"
  by (simp add: take_rows_def split: if_splits)

lemma take_mask_error: "take_mask a msk = Inl e \<Longrightarrow> e = IndexError"
  by (simp add: take_mask_def split: if_splits)

lemma consensus_world:
  "consensus E self X y b L w = (f, w') \<Longrightarrow>
     ests w' = ests w \<and> gens w' = gens w \<and> global_gen w' = global_gen w"
  by (auto simp: consensus_def Let_def log_call_def split: option.splits sum.splits if_splits)

lemma consensus_error:
  "consensus E self X y b L w = (Raise e, w') \<Longrightarrow> e = Propagated \<or> e = IndexError"
  by (auto simp: consensus_def Let_def split: option.splits sum.splits if_splits
           dest: take_rows_error take_mask_error)

lemma consensus_locals:
  assumes "consensus E self X y b L w = (f, w')" and "f = Continue L' \<or> f = Break L'"
  shows "best_n_inliers L \<le> best_n_inliers L' \<and> n_trials L' = n_trials L
         \<and> (best_inlier_mask L \<noteq> None \<longrightarrow> best_inlier_mask L' \<noteq> None)"
  using assms
  by (auto simp: consensus_def Let_def split: option.splits sum.splits if_splits)

lemma consensus_fst_cong:
  "ests w1 ! b1 = ests w2 ! b2 \<Longrightarrow>
     fst (consensus E self X y b1 L w1) = fst (consensus E self X y b2 L w2)"
  by (simp add: consensus_def Let_def log_call_def split: option.splits sum.splits)

text \<open>A trial writes to the working estimator and to the generator, to no other object.\<close>

lemma trial_frame:
  assumes "trial E self X y b rs k L w = (f, w')"
  shows "length (ests w') = length (ests w) \<and> (\<forall>a. a \<noteq> b \<longrightarrow> ests w' ! a = ests w ! a)
       \<and> length (gens w') = length (gens w)
       \<and> (\<forall>a. rs \<noteq> GenObj a \<longrightarrow> gens w' ! a = gens w ! a)
       \<and> (rs \<noteq> GlobalGen \<longrightarrow> global_gen w' = global_gen w)"
  using assms
  by (auto simp: trial_def Let_def log_call_def gen_set_def est_set_def
           split: option.splits sum.splits if_splits gen_ref.splits prod.splits
           dest!: consensus_world)

lemma trial_error:
  "trial E self X y b rs k L w = (Raise e, w') \<Longrightarrow> e = Propagated \<or> e = IndexError"
  by (auto simp: trial_def Let_def split: option.splits sum.splits if_splits prod.splits
           dest: take_rows_error consensus_error)

lemma trial_locals:
  assumes "trial E self X y b rs k L w = (f, w')" and "f = Continue L' \<or> f = Break L'"
  shows "best_n_inliers L \<le> best_n_inliers L' \<and> n_trials L' = n_trials L
         \<and> (best_inlier_mask L \<noteq> None \<longrightarrow> best_inlier_mask L' \<noteq> None)"
  using assms
  by (auto simp: trial_def Let_def split: option.splits sum.splits if_splits prod.splits
           dest: consensus_locals)

text \<open>A trial depends on the store through the states of the working estimator and of the
  generator only.\<close>

lemma trial_sim:
  assumes "b1 < length (ests w1)" and "b2 < length (ests w2)"
      and "ests w1 ! b1 = ests w2 ! b2"
      and "gen_valid w1 rs1" and "gen_valid w2 rs2"
      and "gen_get w1 rs1 = gen_get w2 rs2"
  shows "fst (trial E self X y b1 rs1 k L w1) = fst (trial E self X y b2 rs2 k L w2)
       \<and> ests (snd (trial E self X y b1 rs1 k L w1)) ! b1
           = ests (snd (trial E self X y b2 rs2 k L w2)) ! b2
       \<and> gen_get (snd (trial E self X y b1 rs1 k L w1)) rs1
           = gen_get (snd (trial E self X y b2 rs2 k L w2)) rs2"
proof -
  have c1: "\<And>b L w. ests (snd (consensus E self X y b L w)) = ests w"
   and c2: "\<And>b L w. gens (snd (consensus E self X y b L w)) = gens w"
   and c3: "\<And>b L w. global_gen (snd (consensus E self X y b L w)) = global_gen w"
    using consensus_world [OF prod.collapse [symmetric]] by blast+
  show ?thesis
    using assms
    by (auto simp: trial_def Let_def log_call_def gen_get_def gen_set_def est_set_def
                   gen_valid_def c1 c2 c3
             split: gen_ref.splits option.splits sum.splits prod.splits
             intro!: consensus_fst_cong)
qed

subsection \<open>The check of the data\<close>

lemma gen_get_log_call [simp]: "gen_get (log_call c w) rs = gen_get w rs"
  by (simp add: gen_get_def log_call_def split: gen_ref.splits)

lemma trial_gate_false:
  assumes "is_data_valid self = Some f" and "\<not> f X y"
      and "randint E (gen_get w rs) (length X) k = Some (idxs, g')"
      and "take_rows X idxs = Inr rX" and "take_rows y idxs = Inr ry"
  shows "trial E self X y b rs k L w =
           (Continue L,
            log_call (CallIsDataValid X y)
              (gen_set rs g' (log_call (CallRandint (length X) k) w)))"
  using assms by (simp add: trial_def Let_def)

lemma gate_world:
  "ests (log_call (CallIsDataValid X y) (gen_set rs g' (log_call (CallRandint n k) w))) = ests w"
  "calls (log_call (CallIsDataValid X y) (gen_set rs g' (log_call (CallRandint n k) w)))
     = calls w @ [CallRandint n k, CallIsDataValid X y]"
  by (simp_all add: log_call_def gen_set_def split: gen_ref.splits)


lemma trials_gate_false:
  assumes "is_data_valid self = Some f" and "\<not> f X y"
      and "\<forall>g. \<exists>idxs g'. randint E g (length X) k = Some (idxs, g')
                 \<and> (\<forall>i \<in> set idxs. i < length X \<and> i < length y)"
  shows "\<exists>w'. trials E self X y b rs k is L w
                = (Inr (if is = [] then L else L\<lparr>n_trials := Some (last is)\<rparr>), w')
             \<and> ests w' = ests w
             \<and> calls w' = calls w
                 @ concat (replicate (length is) [CallRandint (length X) k, CallIsDataValid X y])"
proof (induction "is" arbitrary: L w)
  case Nil
  then show ?case by simp
next
  case (Cons i "is")
  from assms(3) obtain idxs g' where
    d: "randint E (gen_get w rs) (length X) k = Some (idxs, g')"
    and r: "\<forall>i \<in> set idxs. i < length X \<and> i < length y"
    by blast
  from r have tx: "take_rows X idxs = Inr (map (\<lambda>i. X ! i) idxs)"
    and ty: "take_rows y idxs = Inr (map (\<lambda>i. y ! i) idxs)"
    by (simp_all add: take_rows_def)
  let ?w = "log_call (CallIsDataValid X y)
              (gen_set rs g' (log_call (CallRandint (length X) k) w))"
  have step: "trial E self X y b rs k (L\<lparr>n_trials := Some i\<rparr>) w
                = (Continue (L\<lparr>n_trials := Some i\<rparr>), ?w)"
    by (rule trial_gate_false [OF assms(1,2) d tx ty])
  from Cons.IH [of "L\<lparr>n_trials := Some i\<rparr>" ?w] obtain w' where
    a: "trials E self X y b rs k is (L\<lparr>n_trials := Some i\<rparr>) ?w
          = (Inr (if is = [] then L\<lparr>n_trials := Some i\<rparr>
                  else L\<lparr>n_trials := Some i, n_trials := Some (last is)\<rparr>), w')"
    and b: "ests w' = ests ?w"
    and c: "calls w' = calls ?w
              @ concat (replicate (length is) [CallRandint (length X) k, CallIsDataValid X y])"
    by blast
  show ?case
    using a b c by (auto simp: step gate_world)
qed


subsection \<open>No sample kept\<close>

lemma check_random_state_world:
  assumes "check_random_state E r w = (rs, w')"
  shows "ests w' = ests w \<and> calls w' = calls w"
  using assms by (auto simp: check_random_state_def split: rstate.splits)

lemma finish_unset:
  "best_inlier_mask L = None \<Longrightarrow> finish E self b L w = (Some NoConsensus, self, w)"
  by (simp add: finish_def)

text \<open>
  C4. When the loop ends with the best mask still unset, \<open>fit\<close> raises the error "could
  not find valid consensus set" and assigns no attribute. In particular, when
  \<open>is_data_valid\<close> is false on the data and every draw succeeds, \<open>fit\<close> raises that error
  after exactly \<open>max_trials\<close> runs of the loop body (none when \<open>max_trials\<close> is negative),
  each of them a draw and a call of the check and nothing else: no estimator object changes.
\<close>

theorem convergence_error:
  "(resolve_base_estimator E self y w = (Inr b, w1)
      \<and> resolve_min_n_samples E self X = Inr k
      \<and> check_random_state E (random_state self) w1 = (rs, w2)
      \<and> trials E self X (items y) b rs k [0..<nat (max_trials self)] init_locals w2
          = (Inr L, w3)
      \<and> best_inlier_mask L = None
    \<longrightarrow> fit E self X y w = (Some NoConsensus, self, w3))
   \<and> (resolve_base_estimator E self y w = (Inr b, w1)
      \<and> resolve_min_n_samples E self X = Inr k
      \<and> is_data_valid self = Some f \<and> \<not> f X (items y)
      \<and> (\<forall>g. \<exists>idxs g'. randint E g (length X) k = Some (idxs, g')
                 \<and> (\<forall>i \<in> set idxs. i < length X \<and> i < length (items y)))
    \<longrightarrow> (\<exists>w'. fit E self X y w = (Some NoConsensus, self, w')
             \<and> ests w' = ests w1
             \<and> calls w' = calls w1
                 @ concat (replicate (nat (max_trials self))
                     [CallRandint (length X) k, CallIsDataValid X (items y)])))"
proof (intro conjI impI)
  assume "resolve_base_estimator E self y w = (Inr b, w1)
      \<and> resolve_min_n_samples E self X = Inr k
      \<and> check_random_state E (random_state self) w1 = (rs, w2)
      \<and> trials E self X (items y) b rs k [0..<nat (max_trials self)] init_locals w2
          = (Inr L, w3)
      \<and> best_inlier_mask L = None"
  then show "fit E self X y w = (Some NoConsensus, self, w3)"
    by (simp add: fit_def finish_unset)
next
  assume a: "resolve_base_estimator E self y w = (Inr b, w1)
      \<and> resolve_min_n_samples E self X = Inr k
      \<and> is_data_valid self = Some f \<and> \<not> f X (items y)
      \<and> (\<forall>g. \<exists>idxs g'. randint E g (length X) k = Some (idxs, g')
                 \<and> (\<forall>i \<in> set idxs. i < length X \<and> i < length (items y)))"
  obtain rs w2 where c: "check_random_state E (random_state self) w1 = (rs, w2)"
    by (cases "check_random_state E (random_state self) w1")
  let ?is = "[0..<nat (max_trials self)]"
  from a trials_gate_false [of self f X "items y" E k b rs ?is init_locals w2]
  obtain w' where
    t: "trials E self X (items y) b rs k ?is init_locals w2
          = (Inr (if ?is = [] then init_locals
                  else init_locals\<lparr>n_trials := Some (last ?is)\<rparr>), w')"
    and e: "ests w' = ests w2"
    and l: "calls w' = calls w2
              @ concat (replicate (length ?is)
                  [CallRandint (length X) k, CallIsDataValid X (items y)])"
    by blast
  have "fit E self X y w = (Some NoConsensus, self, w')"
    using a c t by (simp add: fit_def finish_unset init_locals_def)
  with e l check_random_state_world [OF c]
  show "\<exists>w'. fit E self X y w = (Some NoConsensus, self, w')
             \<and> ests w' = ests w1
             \<and> calls w' = calls w1
                 @ concat (replicate (nat (max_trials self))
                     [CallRandint (length X) k, CallIsDataValid X (items y)])"
    by auto
qed

theorem convergence_error_witness:
  "resolve_base_estimator demo_env demo_self_gate demo_y demo_world
     = (Inr 1, demo_world\<lparr>ests := [0, 0], calls := [CallLinearRegression]\<rparr>)
   \<and> resolve_min_n_samples demo_env demo_self_gate demo_X = Inr (Fin 2)
   \<and> check_random_state demo_env (random_state demo_self_gate)
        (demo_world\<lparr>ests := [0, 0], calls := [CallLinearRegression]\<rparr>)
       = (GenObj 1, demo_world\<lparr>ests := [0, 0], gens := [5, 1], calls := [CallLinearRegression]\<rparr>)
   \<and> trials demo_env demo_self_gate demo_X (items demo_y) 1 (GenObj 1) (Fin 2)
        [0..<nat (max_trials demo_self_gate)] init_locals
        (demo_world\<lparr>ests := [0, 0], gens := [5, 1], calls := [CallLinearRegression]\<rparr>)
       = (Inr (init_locals\<lparr>n_trials := Some 2\<rparr>),
          demo_world\<lparr>ests := [0, 0], gens := [5, 4],
            calls := [CallLinearRegression,
              CallRandint 4 (Fin 2), CallIsDataValid [1, 2, 3, 4] [1, 2, 7, 9],
              CallRandint 4 (Fin 2), CallIsDataValid [1, 2, 3, 4] [1, 2, 7, 9],
              CallRandint 4 (Fin 2), CallIsDataValid [1, 2, 3, 4] [1, 2, 7, 9]]\<rparr>)
   \<and> best_inlier_mask (init_locals\<lparr>n_trials := Some 2\<rparr> :: (int, int) locals) = None
   \<and> is_data_valid demo_self_gate = Some (\<lambda>X y. length X \<le> 2)
   \<and> \<not> length demo_X \<le> 2
   \<and> (\<forall>g. \<exists>idxs g'. randint demo_env g (length demo_X) (Fin 2) = Some (idxs, g')
               \<and> (\<forall>i \<in> set idxs. i < length demo_X \<and> i < length (items demo_y)))
   \<and> fit demo_env demo_self_gate demo_X demo_y demo_world
       = (Some NoConsensus, demo_self_gate,
          demo_world\<lparr>ests := [0, 0], gens := [5, 4],
            calls := [CallLinearRegression,
              CallRandint 4 (Fin 2), CallIsDataValid [1, 2, 3, 4] [1, 2, 7, 9],
              CallRandint 4 (Fin 2), CallIsDataValid [1, 2, 3, 4] [1, 2, 7, 9],
              CallRandint 4 (Fin 2), CallIsDataValid [1, 2, 3, 4] [1, 2, 7, 9]]\<rparr>)
   \<and> (\<exists>w'. fit demo_env demo_self_gate demo_X demo_y demo_world
               = (Some NoConsensus, demo_self_gate, w')
            \<and> ests w' = [0, 0]
            \<and> calls w' = [CallLinearRegression]
                @ concat (replicate 3
                    [CallRandint (length demo_X) (Fin 2),
                     CallIsDataValid demo_X (items demo_y)]))"
proof -
  let ?w1 = "demo_world\<lparr>ests := [0, 0], calls := [CallLinearRegression]\<rparr>"
  let ?w2 = "demo_world\<lparr>ests := [0, 0], gens := [5, 1], calls := [CallLinearRegression]\<rparr>"
  let ?w3 = "demo_world\<lparr>ests := [0, 0], gens := [5, 4],
            calls := [CallLinearRegression,
              CallRandint 4 (Fin 2), CallIsDataValid [1, 2, 3, 4] [1, 2, 7, 9],
              CallRandint 4 (Fin 2), CallIsDataValid [1, 2, 3, 4] [1, 2, 7, 9],
              CallRandint 4 (Fin 2), CallIsDataValid [1, 2, 3, 4] [1, 2, 7, 9]]\<rparr>"
  have h1: "resolve_base_estimator demo_env demo_self_gate demo_y demo_world = (Inr 1, ?w1)"
    by (simp add: fit_eval_defs demo_defs demo_self_gate_def)
  have h2: "resolve_min_n_samples demo_env demo_self_gate demo_X = Inr (Fin 2)"
    by (simp add: fit_eval_defs demo_defs demo_self_gate_def)
  have h3: "check_random_state demo_env (random_state demo_self_gate) ?w1 = (GenObj 1, ?w2)"
    by (simp add: fit_eval_defs demo_defs demo_self_gate_def)
  have h4: "trials demo_env demo_self_gate demo_X (items demo_y) 1 (GenObj 1) (Fin 2)
        [0..<nat (max_trials demo_self_gate)] init_locals ?w2
       = (Inr (init_locals\<lparr>n_trials := Some 2\<rparr>), ?w3)"
    by (simp add: fit_eval_defs demo_defs demo_self_gate_def)
  have h5: "best_inlier_mask (init_locals\<lparr>n_trials := Some 2\<rparr> :: (int, int) locals) = None"
    by (simp add: init_locals_def)
  have h6: "is_data_valid demo_self_gate = Some (\<lambda>X y. length X \<le> 2)"
    by (simp add: demo_self_gate_def)
  have h7: "\<not> length demo_X \<le> 2"
    by (simp add: demo_X_def)
  have h8: "\<forall>g. \<exists>idxs g'. randint demo_env g (length demo_X) (Fin 2) = Some (idxs, g')
               \<and> (\<forall>i \<in> set idxs. i < length demo_X \<and> i < length (items demo_y))"
  proof -
    have four: "Suc (Suc (Suc (Suc 0))) = 4"
      by simp
    have "(g + i) mod 4 < Suc (Suc (Suc (Suc 0)))" for g i :: nat
      unfolding four by simp
    then show ?thesis
      by (simp add: demo_env_def demo_X_def demo_y_def)
  qed
  note inst = convergence_error [of demo_env demo_self_gate demo_y demo_world 1 ?w1 demo_X
      "Fin 2" "GenObj 1" ?w2 "init_locals\<lparr>n_trials := Some 2\<rparr>" ?w3 "\<lambda>X y. length X \<le> 2"]
  have c1: "fit demo_env demo_self_gate demo_X demo_y demo_world
       = (Some NoConsensus, demo_self_gate, ?w3)"
    using inst h1 h2 h3 h4 h5 by blast
  have c2: "\<exists>w'. fit demo_env demo_self_gate demo_X demo_y demo_world
               = (Some NoConsensus, demo_self_gate, w')
            \<and> ests w' = [0, 0]
            \<and> calls w' = [CallLinearRegression]
                @ concat (replicate 3
                    [CallRandint (length demo_X) (Fin 2),
                     CallIsDataValid demo_X (items demo_y)])"
    using conjunct2 [OF inst] h1 h2 h6 h7 h8
    by (simp add: demo_self_gate_def demo_self_def demo_world_def)
  from h1 h2 h3 h4 h5 h6 h7 h8 c1 c2 show ?thesis by blast
qed

subsection \<open>The loop\<close>

lemma trials_locals:
  "trials E self X y b rs k is L w = (Inr L', w') \<Longrightarrow>
     best_n_inliers L \<le> best_n_inliers L'
     \<and> (is \<noteq> [] \<longrightarrow> n_trials L' \<noteq> None)
     \<and> (is = [] \<longrightarrow> L' = L)"
proof (induction "is" arbitrary: L w)
  case Nil
  then show ?case by simp
next
  case (Cons i "is")
  obtain f w1 where t: "trial E self X y b rs k (L\<lparr>n_trials := Some i\<rparr>) w = (f, w1)"
    by (cases "trial E self X y b rs k (L\<lparr>n_trials := Some i\<rparr>) w")
  show ?case
  proof (cases f)
    case (Continue L1)
    from trial_locals [OF t, of L1] Continue
    have m: "best_n_inliers L \<le> best_n_inliers L1" and n: "n_trials L1 = Some i"
      by simp_all
    from Cons.prems t Continue
    have r: "trials E self X y b rs k is L1 w1 = (Inr L', w')"
      by simp
    from Cons.IH [OF r] m n show ?thesis
      by (cases "is = []") auto
  next
    case (Break L1)
    from trial_locals [OF t, of L1] Break
    have m: "best_n_inliers L \<le> best_n_inliers L1" and n: "n_trials L1 = Some i"
      by simp_all
    from Cons.prems t Break have "L' = L1"
      by simp
    with m n show ?thesis by simp
  next
    case (Raise e)
    with Cons.prems t show ?thesis by simp
  qed
qed

lemma trials_error:
  "trials E self X y b rs k is L w = (Inl e, w') \<Longrightarrow> e = Propagated \<or> e = IndexError"
proof (induction "is" arbitrary: L w)
  case Nil
  then show ?case by simp
next
  case (Cons i "is")
  obtain f w1 where t: "trial E self X y b rs k (L\<lparr>n_trials := Some i\<rparr>) w = (f, w1)"
    by (cases "trial E self X y b rs k (L\<lparr>n_trials := Some i\<rparr>) w")
  show ?case
  proof (cases f)
    case (Continue L1)
    with Cons.prems t have "trials E self X y b rs k is L1 w1 = (Inl e, w')"
      by simp
    then show ?thesis by (rule Cons.IH)
  next
    case (Break L1)
    with Cons.prems t show ?thesis by simp
  next
    case (Raise e1)
    with Cons.prems t have "e1 = e" by simp
    with trial_error t Raise show ?thesis by blast
  qed
qed

lemma frame_refl: "frame b rs w w"
  by (simp add: frame_def)

lemma frame_trans: "frame b rs w w1 \<Longrightarrow> frame b rs w1 w2 \<Longrightarrow> frame b rs w w2"
  by (simp add: frame_def)

lemma trial_frame': "trial E self X y b rs k L w = (f, w') \<Longrightarrow> frame b rs w w'"
  unfolding frame_def by (rule trial_frame)

lemma trials_frame:
  "trials E self X y b rs k is L w = (r, w') \<Longrightarrow> frame b rs w w'"
proof (induction "is" arbitrary: L w)
  case Nil
  then show ?case by (simp add: frame_refl)
next
  case (Cons i "is")
  obtain f w1 where t: "trial E self X y b rs k (L\<lparr>n_trials := Some i\<rparr>) w = (f, w1)"
    by (cases "trial E self X y b rs k (L\<lparr>n_trials := Some i\<rparr>) w")
  note f1 = trial_frame' [OF t]
  show ?case
  proof (cases f)
    case (Continue L1)
    with Cons.prems t have "trials E self X y b rs k is L1 w1 = (r, w')"
      by simp
    from frame_trans [OF f1 Cons.IH [OF this]] show ?thesis .
  next
    case (Break L1)
    with Cons.prems t f1 show ?thesis by auto
  next
    case (Raise e1)
    with Cons.prems t f1 show ?thesis by auto
  qed
qed

lemma trials_sim:
  assumes "b1 < length (ests w1)" and "b2 < length (ests w2)"
      and "ests w1 ! b1 = ests w2 ! b2"
      and "gen_valid w1 rs1" and "gen_valid w2 rs2"
      and "gen_get w1 rs1 = gen_get w2 rs2"
  shows "fst (trials E self X y b1 rs1 k is L w1) = fst (trials E self X y b2 rs2 k is L w2)
       \<and> ests (snd (trials E self X y b1 rs1 k is L w1)) ! b1
           = ests (snd (trials E self X y b2 rs2 k is L w2)) ! b2"
  using assms
proof (induction "is" arbitrary: L w1 w2)
  case Nil
  then show ?case by simp
next
  case (Cons i "is")
  let ?L = "L\<lparr>n_trials := Some i\<rparr>"
  obtain f1 v1 where t1: "trial E self X y b1 rs1 k ?L w1 = (f1, v1)"
    by (cases "trial E self X y b1 rs1 k ?L w1")
  obtain f2 v2 where t2: "trial E self X y b2 rs2 k ?L w2 = (f2, v2)"
    by (cases "trial E self X y b2 rs2 k ?L w2")
  from trial_sim [OF Cons.prems, of E self X y k ?L] t1 t2
  have s: "f1 = f2" "ests v1 ! b1 = ests v2 ! b2" "gen_get v1 rs1 = gen_get v2 rs2"
    by simp_all
  from trial_frame' [OF t1] trial_frame' [OF t2] Cons.prems
  have v: "b1 < length (ests v1)" "b2 < length (ests v2)" "gen_valid v1 rs1" "gen_valid v2 rs2"
    by (auto simp: frame_def gen_valid_def split: gen_ref.splits)
  show ?case
  proof (cases f1)
    case (Continue L1)
    with s(1) t1 t2 have
      "trial E self X y b1 rs1 k ?L w1 = (Continue L1, v1)"
      "trial E self X y b2 rs2 k ?L w2 = (Continue L1, v2)"
      by simp_all
    with Cons.IH [OF v(1,2) s(2) v(3,4) s(3), of L1] show ?thesis
      by simp
  next
    case (Break L1)
    with s(1) t1 t2 have
      "trial E self X y b1 rs1 k ?L w1 = (Break L1, v1)"
      "trial E self X y b2 rs2 k ?L w2 = (Break L1, v2)"
      by simp_all
    with s(2) show ?thesis by simp
  next
    case (Raise e1)
    with s(1) t1 t2 have
      "trial E self X y b1 rs1 k ?L w1 = (Raise e1, v1)"
      "trial E self X y b2 rs2 k ?L w2 = (Raise e1, v2)"
      by simp_all
    with s(2) show ?thesis by simp
  qed
qed

subsection \<open>The resolution of the parameters\<close>

lemma fl_ge_not_less: "fl_ge a b \<Longrightarrow> \<not> fl_less a b"
  by (cases a; cases b) simp_all

lemma resolve_min_n_samples_cases:
  "fl_less (Fin 0) (min_n_samples self) \<and> fl_less (min_n_samples self) (Fin 1) \<Longrightarrow>
     resolve_min_n_samples E self X
       = Inr (np_ceil (float_mul E (min_n_samples self) (length X)))"
  "fl_ge (min_n_samples self) (Fin 1) \<Longrightarrow>
     resolve_min_n_samples E self X = Inr (min_n_samples self)"
  "\<not> (fl_less (Fin 0) (min_n_samples self) \<and> fl_less (min_n_samples self) (Fin 1)) \<Longrightarrow>
   \<not> fl_ge (min_n_samples self) (Fin 1) \<Longrightarrow>
     resolve_min_n_samples E self X = Inl BadMinNSamples"
  by (auto simp: resolve_min_n_samples_def dest: fl_ge_not_less)

lemma resolve_base_estimator_cases:
  "base_estimator self = None \<Longrightarrow> dtype_kind y \<noteq> CHR ''f'' \<Longrightarrow>
     resolve_base_estimator E self y w = (Inl NoBaseEstimator, w)"
  "base_estimator self = None \<Longrightarrow> dtype_kind y = CHR ''f'' \<Longrightarrow>
     resolve_base_estimator E self y w
       = (Inr (length (ests w)),
          w\<lparr>ests := ests w @ [LinearRegression E], calls := calls w @ [CallLinearRegression]\<rparr>)"
  "base_estimator self = Some p \<Longrightarrow>
     resolve_base_estimator E self y w
       = (Inr (length (ests w)),
          w\<lparr>ests := ests w @ [clone E (ests w ! p)], calls := calls w @ [CallClone p]\<rparr>)"
  by (simp_all add: resolve_base_estimator_def new_LinearRegression_def clone_obj_def
                    log_call_def)

subsection \<open>The best number of inliers\<close>

text \<open>
  C7. The best number of inliers never decreases: every run of the loop body that returns
  leaves it at least as large as it was, and so does the loop from any state it starts in.
\<close>

theorem best_n_inliers_monotone:
  "(trial E self X y b rs k L w = (f, w') \<and> (f = Continue L' \<or> f = Break L')
      \<longrightarrow> best_n_inliers L \<le> best_n_inliers L')
   \<and> (trials E self X y b rs k is L w = (Inr L'', w'')
      \<longrightarrow> best_n_inliers L \<le> best_n_inliers L'')"
  using trial_locals [of E self X y b rs k L w f w' L']
        trials_locals [of E self X y b rs k "is" L w L'' w'']
  by blast

theorem best_n_inliers_monotone_witness:
  "trial demo_env demo_self demo_X (items demo_y) 0 (GenObj 0) (Fin 2) init_locals demo_world
     = (Continue \<lparr>best_n_inliers = 2, best_score = Fin 2,
                  best_inlier_mask = Some [True, True, False, False],
                  best_inlier_X = Some [1, 2], best_inlier_y = Some [1, 2],
                  n_trials = None\<rparr>,
        \<lparr>ests = [2], gens = [6], global_gen = 0,
         calls = [CallRandint 4 (Fin 2), CallFit [2, 3] [2, 7],
                  CallPredict [1, 2, 3, 4], CallScore [1, 2] [1, 2]]\<rparr>)
   \<and> trials demo_env demo_self demo_X (items demo_y) 0 (GenObj 0) (Fin 2) [0, 1]
        init_locals demo_world
     = (Inr \<lparr>best_n_inliers = 2, best_score = Fin 2,
             best_inlier_mask = Some [True, True, False, False],
             best_inlier_X = Some [1, 2], best_inlier_y = Some [1, 2],
             n_trials = Some 1\<rparr>,
        \<lparr>ests = [4], gens = [7], global_gen = 0,
         calls = [CallRandint 4 (Fin 2), CallFit [2, 3] [2, 7],
                  CallPredict [1, 2, 3, 4], CallScore [1, 2] [1, 2],
                  CallRandint 4 (Fin 2), CallFit [3, 4] [7, 9],
                  CallPredict [1, 2, 3, 4], CallScore [1, 2] [1, 2]]\<rparr>)
   \<and> best_n_inliers (init_locals :: (int, int) locals) \<le> 2"
proof -
  let ?L1 = "\<lparr>best_n_inliers = 2, best_score = Fin 2,
                  best_inlier_mask = Some [True, True, False, False],
                  best_inlier_X = Some [1, 2 :: int], best_inlier_y = Some [1, 2 :: int],
                  n_trials = None\<rparr>"
  let ?L2 = "\<lparr>best_n_inliers = 2, best_score = Fin 2,
             best_inlier_mask = Some [True, True, False, False],
             best_inlier_X = Some [1, 2 :: int], best_inlier_y = Some [1, 2 :: int],
             n_trials = Some 1\<rparr>"
  let ?W1 = "\<lparr>ests = [2 :: nat], gens = [6 :: nat], global_gen = 0,
         calls = [CallRandint 4 (Fin 2), CallFit [2, 3 :: int] [2, 7 :: int],
                  CallPredict [1, 2, 3, 4], CallScore [1, 2] [1, 2]]\<rparr>"
  let ?W2 = "\<lparr>ests = [4 :: nat], gens = [7 :: nat], global_gen = 0,
         calls = [CallRandint 4 (Fin 2), CallFit [2, 3 :: int] [2, 7 :: int],
                  CallPredict [1, 2, 3, 4], CallScore [1, 2] [1, 2],
                  CallRandint 4 (Fin 2), CallFit [3, 4] [7, 9],
                  CallPredict [1, 2, 3, 4], CallScore [1, 2] [1, 2]]\<rparr>"
  have t1: "trial demo_env demo_self demo_X (items demo_y) 0 (GenObj 0) (Fin 2) init_locals
              demo_world = (Continue ?L1, ?W1)"
    by (simp add: fit_eval_defs demo_defs)
  have t2: "trials demo_env demo_self demo_X (items demo_y) 0 (GenObj 0) (Fin 2) [0, 1]
              init_locals demo_world = (Inr ?L2, ?W2)"
    by (simp add: fit_eval_defs demo_defs)
  from best_n_inliers_monotone [of demo_env demo_self demo_X "items demo_y" 0 "GenObj 0"
      "Fin 2" init_locals demo_world "Continue ?L1" ?W1 ?L1 "[0, 1]" ?L2 ?W2] t1 t2
  have "best_n_inliers (init_locals :: (int, int) locals) \<le> best_n_inliers ?L1"
    by blast
  with t1 t2 show ?thesis by simp
qed

subsection \<open>What \<open>fit\<close> changes\<close>

text \<open>The four ways through \<open>fit\<close>.\<close>

lemma fit_cases [case_names no_estimator bad_min_n_samples loop_raises loop_returns]:
  obtains
    "base_estimator self = None" and "dtype_kind y \<noteq> CHR ''f''"
      and "fit E self X y w = (Some NoBaseEstimator, self, w)"
  | b w1 where "resolve_base_estimator E self y w = (Inr b, w1)"
      and "resolve_min_n_samples E self X = Inl BadMinNSamples"
      and "fit E self X y w = (Some BadMinNSamples, self, w1)"
  | b w1 k rs w2 e w3 where "resolve_base_estimator E self y w = (Inr b, w1)"
      and "resolve_min_n_samples E self X = Inr k"
      and "check_random_state E (random_state self) w1 = (rs, w2)"
      and "trials E self X (items y) b rs k [0..<nat (max_trials self)] init_locals w2
             = (Inl e, w3)"
      and "fit E self X y w = (Some e, self, w3)"
  | b w1 k rs w2 L w3 where "resolve_base_estimator E self y w = (Inr b, w1)"
      and "resolve_min_n_samples E self X = Inr k"
      and "check_random_state E (random_state self) w1 = (rs, w2)"
      and "trials E self X (items y) b rs k [0..<nat (max_trials self)] init_locals w2
             = (Inr L, w3)"
      and "fit E self X y w = finish E self b L w3"
proof (cases "base_estimator self = None \<and> dtype_kind y \<noteq> CHR ''f''")
  case True
  then show ?thesis
    using that(1) by (simp add: fit_def resolve_base_estimator_cases)
next
  case False
  then obtain b w1 where r: "resolve_base_estimator E self y w = (Inr b, w1)"
    by (cases "base_estimator self") (auto simp: resolve_base_estimator_cases)
  show ?thesis
  proof (cases "resolve_min_n_samples E self X")
    case (Inl e)
    then have "e = BadMinNSamples"
      by (simp add: resolve_min_n_samples_def split: if_splits)
    with Inl r that(2) show ?thesis by (simp add: fit_def)
  next
    case (Inr k)
    obtain rs w2 where c: "check_random_state E (random_state self) w1 = (rs, w2)"
      by (cases "check_random_state E (random_state self) w1")
    obtain t w3 where
      t: "trials E self X (items y) b rs k [0..<nat (max_trials self)] init_locals w2 = (t, w3)"
      by (cases "trials E self X (items y) b rs k [0..<nat (max_trials self)] init_locals w2")
    show ?thesis
    proof (cases t)
      case (Inl e)
      with Inr r c t that(3) show ?thesis by (simp add: fit_def)
    next
      case (Inr L)
      with \<open>resolve_min_n_samples E self X = Inr k\<close> r c t that(4) show ?thesis
        by (simp add: fit_def)
    qed
  qed
qed

lemma resolve_base_estimator_world:
  assumes "resolve_base_estimator E self y w = (Inr b, w1)"
  shows "b = length (ests w) \<and> length (ests w1) = Suc (length (ests w))
       \<and> (\<forall>a < length (ests w). ests w1 ! a = ests w ! a)
       \<and> gens w1 = gens w \<and> global_gen w1 = global_gen w"
  using assms
  by (auto simp: resolve_base_estimator_def clone_obj_def new_LinearRegression_def
                 log_call_def nth_append split: option.splits if_splits)

lemma check_random_state_gens:
  assumes "check_random_state E r w = (rs, w')"
  shows "length (gens w) \<le> length (gens w')
       \<and> (\<forall>a < length (gens w). gens w' ! a = gens w ! a)
       \<and> global_gen w' = global_gen w
       \<and> (case r of RSNone \<Rightarrow> rs = GlobalGen
          | RSSeed n \<Rightarrow> rs = GenObj (length (gens w)) \<and> gen_get w' rs = RandomState E n
                         \<and> gen_valid w' rs
          | RSInstance a \<Rightarrow> rs = GenObj a)"
  using assms
  by (auto simp: check_random_state_def nth_append gen_get_def gen_valid_def
           split: rstate.splits)

lemma finish_frame:
  assumes "finish E self b L w = (r, self', w')"
  shows "length (ests w') = length (ests w) \<and> (\<forall>a. a \<noteq> b \<longrightarrow> ests w' ! a = ests w ! a)
       \<and> gens w' = gens w \<and> global_gen w' = global_gen w"
  using assms
  by (auto simp: finish_def Let_def log_call_def est_set_def split: option.splits)

lemma finish_self:
  assumes "finish E self b L w = (r, self', w')"
  shows "self'\<lparr>estimator' := estimator' self, n_trials' := n_trials' self,
               inlier_mask' := inlier_mask' self\<rparr> = self"
  using assms
  by (auto simp: finish_def Let_def split: option.splits)

lemma finish_raises:
  assumes "finish E self b L w = (Some e, self', w')"
      and "best_inlier_mask L = None \<or> n_trials L \<noteq> None"
  shows "self' = self"
  using assms
  by (auto simp: finish_def Let_def split: option.splits)

text \<open>What \<open>fit\<close> leaves as it was in the store.\<close>

lemma fit_frame:
  assumes "fit E self X y w = (r, self', w')"
  shows "(\<forall>a < length (ests w). ests w' ! a = ests w ! a)
       \<and> (\<forall>a < length (gens w). random_state self \<noteq> RSInstance a \<longrightarrow> gens w' ! a = gens w ! a)
       \<and> (random_state self \<noteq> RSNone \<longrightarrow> global_gen w' = global_gen w)"
proof -
  have loop: "(\<forall>a < length (ests w). ests w3 ! a = ests w ! a)
       \<and> (\<forall>a < length (gens w). random_state self \<noteq> RSInstance a \<longrightarrow> gens w3 ! a = gens w ! a)
       \<and> (random_state self \<noteq> RSNone \<longrightarrow> global_gen w3 = global_gen w)
       \<and> b = length (ests w)"
    if rb: "resolve_base_estimator E self y w = (Inr b, w1)"
      and c: "check_random_state E (random_state self) w1 = (rs, w2)"
      and t: "trials E self X (items y) b rs k is init_locals w2 = (t, w3)"
    for b w1 rs w2 k "is" t w3
  proof -
    note f = trials_frame [OF t, unfolded frame_def]
    note g = check_random_state_gens [OF c] check_random_state_world [OF c]
    note h = resolve_base_estimator_world [OF rb]
    have e: "\<forall>a < length (ests w). ests w3 ! a = ests w ! a"
      using f g h by auto
    have "\<forall>a < length (gens w). random_state self \<noteq> RSInstance a \<longrightarrow> gens w3 ! a = gens w ! a"
      using f g h by (cases "random_state self") auto
    moreover have "random_state self \<noteq> RSNone \<longrightarrow> global_gen w3 = global_gen w"
      using f g h by (cases "random_state self") auto
    ultimately show ?thesis using e h by simp
  qed
  show ?thesis
  proof (cases rule: fit_cases [where E = E and self = self and X = X and y = y and w = w])
    case no_estimator
    with assms show ?thesis by simp
  next
    case (bad_min_n_samples b w1)
    with assms resolve_base_estimator_world [OF bad_min_n_samples(1)] show ?thesis
      by auto
  next
    case (loop_raises b w1 k rs w2 e w3)
    with assms loop [OF loop_raises(1,3,4)] show ?thesis by auto
  next
    case (loop_returns b w1 k rs w2 L w3)
    from assms loop_returns(5) have "finish E self b L w3 = (r, self', w')"
      by simp
    from finish_frame [OF this] loop [OF loop_returns(1,3,4)] show ?thesis
      by auto
  qed
qed

lemma fit_self:
  assumes "fit E self X y w = (r, self', w')"
  shows "self'\<lparr>estimator' := estimator' self, n_trials' := n_trials' self,
               inlier_mask' := inlier_mask' self\<rparr> = self"
proof (cases rule: fit_cases [where E = E and self = self and X = X and y = y and w = w])
  case (loop_returns b w1 k rs w2 L w3)
  with assms have "finish E self b L w3 = (r, self', w')"
    by simp
  then show ?thesis by (rule finish_self)
qed (use assms in auto)

lemma fit_raises_self:
  assumes "fit E self X y w = (Some e, self', w')"
  shows "self' = self"
proof (cases rule: fit_cases [where E = E and self = self and X = X and y = y and w = w])
  case (loop_returns b w1 k rs w2 L w3)
  with assms have f: "finish E self b L w3 = (Some e, self', w')"
    by simp
  from trials_locals [OF loop_returns(4)]
  have "best_inlier_mask L = None \<or> n_trials L \<noteq> None"
    by (cases "[0..<nat (max_trials self)] = []") (auto simp: init_locals_def)
  with f show ?thesis by (rule finish_raises)
qed (use assms in auto)

subsection \<open>The number of rows to draw\<close>

lemma fraction_Fin:
  assumes "fl_less (Fin 0) m" and "fl_less m (Fin 1)"
  obtains r where "m = Fin r" and "0 < r" and "r < 1"
  using assms by (cases m) auto

text \<open>The ceiling of a rounded product, when rounding is monotone and leaves the integers
  up to \<open>N\<close> as they are: the ceiling of the exact product, or one below.\<close>

lemma ceiling_rounded:
  fixes rd :: "rat \<Rightarrow> rat" and r :: rat and N :: nat
  assumes mono: "\<forall>x y. x \<le> y \<longrightarrow> rd x \<le> rd y"
      and exact: "\<forall>i. 0 \<le> i \<and> i \<le> int N \<longrightarrow> rd (of_int i) = of_int i"
      and r: "0 < r" "r < 1"
  shows "\<lceil>r * of_nat N\<rceil> - 1 \<le> \<lceil>rd (r * of_nat N)\<rceil>"
    and "\<lceil>rd (r * of_nat N)\<rceil> \<le> \<lceil>r * of_nat N\<rceil>"
proof -
  let ?x = "r * of_nat N"
  let ?c = "\<lceil>?x\<rceil>"
  have x0: "0 \<le> ?x"
    using r by simp
  have "?x \<le> of_nat N"
    using r by (simp add: mult_left_le_one_le)
  then have "?x \<le> of_int (int N)"
    by simp
  then have cN: "?c \<le> int N"
    by (simp only: ceiling_le_iff)
  have c0: "0 \<le> ?c"
    using x0 by (simp add: ceiling_le_iff le_ceiling_iff)
  from exact c0 cN have ec: "rd (of_int ?c) = of_int ?c"
    by blast
  have "?x \<le> of_int ?c"
    by (rule le_of_int_ceiling)
  with mono have "rd ?x \<le> rd (of_int ?c)"
    by blast
  with ec have "rd ?x \<le> of_int ?c"
    by simp
  then show "\<lceil>rd ?x\<rceil> \<le> ?c"
    by (simp only: ceiling_le_iff)
  show "?c - 1 \<le> \<lceil>rd ?x\<rceil>"
  proof (cases "?c = 0")
    case True
    with x0 have x: "?x = 0"
      by (metis ceiling_le_zero dual_order.antisym order_refl)
    from exact have "rd (of_int 0) = of_int 0"
      by (metis of_nat_0_le_iff order_refl)
    then have "rd 0 = 0"
      by simp
    then have "\<lceil>rd ?x\<rceil> = 0"
      unfolding x by simp
    with True show ?thesis by linarith
  next
    case False
    with c0 have "1 \<le> ?c"
      by linarith
    with cN have "0 \<le> ?c - 1 \<and> ?c - 1 \<le> int N"
      by linarith
    with exact have e1: "rd (of_int (?c - 1)) = of_int (?c - 1)"
      by blast
    have "of_int (?c - 1) \<le> ?x"
      using ceiling_correct [of ?x] by simp
    with mono have "rd (of_int (?c - 1)) \<le> rd ?x"
      by blast
    with e1 have "of_int (?c - 1) \<le> rd ?x"
      by simp
    then show ?thesis
      by (simp only: le_ceiling_iff)
  qed
qed

lemma draws_append: "draws (a @ b) = draws a @ draws b"
  by (simp add: draws_def map_filter_def)

lemma draws_log_call:
  "draws (calls (log_call c w))
     = draws (calls w) @ (case draw_of c of None \<Rightarrow> [] | Some d \<Rightarrow> [d])"
  by (simp add: log_call_def draws_def map_filter_def split: option.splits)

lemma consensus_draws:
  "draws (calls (snd (consensus E self X y b L w))) = draws (calls w)"
  by (simp add: consensus_def Let_def draws_log_call split: option.splits sum.splits)

lemma calls_gen_set [simp]: "calls (gen_set rs g w) = calls w"
  by (simp add: gen_set_def split: gen_ref.splits)

lemma calls_est_set [simp]: "calls (est_set b e w) = calls w"
  by (simp add: est_set_def)

text \<open>Every run of the loop body draws once, \<open>k\<close> indices out of the number of rows.\<close>

lemma trial_draws:
  "draws (calls (snd (trial E self X y b rs k L w))) = draws (calls w) @ [(length X, k)]"
  by (simp add: trial_def Let_def draws_log_call consensus_draws
           split: option.splits sum.splits prod.splits)

lemma trials_draws:
  "\<exists>m \<le> length is. draws (calls (snd (trials E self X y b rs k is L w)))
       = draws (calls w) @ replicate m (length X, k)"
proof (induction "is" arbitrary: L w)
  case Nil
  then show ?case by simp
next
  case (Cons i "is")
  obtain f w1 where t: "trial E self X y b rs k (L\<lparr>n_trials := Some i\<rparr>) w = (f, w1)"
    by (cases "trial E self X y b rs k (L\<lparr>n_trials := Some i\<rparr>) w")
  from trial_draws [of E self X y b rs k "L\<lparr>n_trials := Some i\<rparr>" w] t
  have d: "draws (calls w1) = draws (calls w) @ [(length X, k)]"
    by simp
  show ?case
  proof (cases f)
    case (Continue L1)
    from Cons.IH [of L1 w1] obtain m where "m \<le> length is"
      and "draws (calls (snd (trials E self X y b rs k is L1 w1)))
             = draws (calls w1) @ replicate m (length X, k)"
      by blast
    with d t Continue have "Suc m \<le> length (i # is)
      \<and> draws (calls (snd (trials E self X y b rs k (i # is) L w)))
          = draws (calls w) @ replicate (Suc m) (length X, k)"
      by simp
    then show ?thesis by blast
  next
    case (Break L1)
    with d t have "Suc 0 \<le> length (i # is)
      \<and> draws (calls (snd (trials E self X y b rs k (i # is) L w)))
          = draws (calls w) @ replicate (Suc 0) (length X, k)"
      by simp
    then show ?thesis by blast
  next
    case (Raise e)
    with d t have "Suc 0 \<le> length (i # is)
      \<and> draws (calls (snd (trials E self X y b rs k (i # is) L w)))
          = draws (calls w) @ replicate (Suc 0) (length X, k)"
      by simp
    then show ?thesis by blast
  qed
qed

lemma resolve_base_estimator_draws:
  "draws (calls (snd (resolve_base_estimator E self y w))) = draws (calls w)"
  by (simp add: resolve_base_estimator_def clone_obj_def new_LinearRegression_def
                draws_log_call split: option.splits)

lemma finish_draws:
  "draws (calls (snd (snd (finish E self b L w)))) = draws (calls w)"
  by (simp add: finish_def Let_def draws_log_call split: option.splits)

lemma fit_draws:
  assumes "resolve_min_n_samples E self X = Inr k"
  shows "\<exists>m \<le> nat (max_trials self).
           draws (calls (snd (snd (fit E self X y w))))
             = draws (calls w) @ replicate m (length X, k)"
proof (cases rule: fit_cases [where E = E and self = self and X = X and y = y and w = w])
  case no_estimator
  then have "draws (calls (snd (snd (fit E self X y w))))
               = draws (calls w) @ replicate 0 (length X, k)"
    by simp
  then show ?thesis by blast
next
  case (bad_min_n_samples b w1)
  with assms show ?thesis by simp
next
  case (loop_raises b w1 k1 rs w2 e w3)
  with assms have k: "k1 = k" by simp
  from resolve_base_estimator_draws [of E self y w] loop_raises(1)
  have d1: "draws (calls w1) = draws (calls w)"
    by simp
  from check_random_state_world [OF loop_raises(3)] d1
  have d2: "draws (calls w2) = draws (calls w)"
    by simp
  from trials_draws [of "[0..<nat (max_trials self)]" E self X "items y" b rs k init_locals w2]
    loop_raises(4,5) k d2
  show ?thesis by simp
next
  case (loop_returns b w1 k1 rs w2 L w3)
  with assms have k: "k1 = k" by simp
  from resolve_base_estimator_draws [of E self y w] loop_returns(1)
  have d1: "draws (calls w1) = draws (calls w)"
    by simp
  from check_random_state_world [OF loop_returns(3)] d1
  have d2: "draws (calls w2) = draws (calls w)"
    by simp
  from trials_draws [of "[0..<nat (max_trials self)]" E self X "items y" b rs k init_locals w2]
    loop_returns(4,5) k d2 finish_draws [of E self b L w3]
  show ?thesis by simp
qed

text \<open>
  C5 as stated fails: with a \<open>min_n_samples\<close> of zero, no base estimator and integer
  targets, \<open>fit\<close> fails before any trial, but with the error for \<open>base_estimator\<close>, raised
  first, not with the one for \<open>min_n_samples\<close>.
\<close>

theorem min_n_samples_error_counterexample:
  "min_n_samples demo_self_nought = Fin 0
   \<and> base_estimator demo_self_nought = None
   \<and> dtype_kind demo_y_int = CHR ''i''
   \<and> resolve_min_n_samples demo_env demo_self_nought demo_X = Inl BadMinNSamples
   \<and> fit demo_env demo_self_nought demo_X demo_y_int demo_world
       = (Some NoBaseEstimator, demo_self_nought, demo_world)"
  by (simp add: fit_def resolve_base_estimator_def resolve_min_n_samples_def
                demo_self_nought_def demo_self_def demo_y_int_def demo_y_def)

text \<open>
  C5, amended. Floats are rounded monotonically, and the integers up to the number \<open>N\<close> of
  rows are floats. A configured \<open>min_n_samples\<close> strictly between 0 and 1 is resolved to the
  ceiling of its floating-point product with \<open>N\<close>: an integer, the ceiling of the exact
  product when the product is a float, and otherwise that or one below. A
  \<open>min_n_samples\<close> that is at least 1 is used as it is. The resolved value is the size of
  every draw of \<open>fit\<close>, each out of \<open>N\<close> rows, at most \<open>max_trials\<close> of them. With any other
  value \<open>fit\<close> fails before any trial (no draw, no generator changed): with the error for
  \<open>min_n_samples\<close> when the estimator was resolved, and with the earlier error for
  \<open>base_estimator\<close> when none is configured and \<open>y\<close> is not of a float dtype.
\<close>

theorem min_n_samples_resolution:
  assumes "\<forall>x y. x \<le> y \<longrightarrow> round_double E x \<le> round_double E y"
      and "\<forall>i. 0 \<le> i \<and> i \<le> int (length X) \<longrightarrow> round_double E (of_int i) = of_int i"
  shows "(fl_less (Fin 0) (min_n_samples self) \<and> fl_less (min_n_samples self) (Fin 1)
            \<longrightarrow> (\<exists>r k. min_n_samples self = Fin r
                  \<and> resolve_min_n_samples E self X = Inr (Fin (of_int k))
                  \<and> k = \<lceil>round_double E (r * of_nat (length X))\<rceil>
                  \<and> \<lceil>r * of_nat (length X)\<rceil> - 1 \<le> k \<and> k \<le> \<lceil>r * of_nat (length X)\<rceil>
                  \<and> (round_double E (r * of_nat (length X)) = r * of_nat (length X)
                       \<longrightarrow> k = \<lceil>r * of_nat (length X)\<rceil>)))
       \<and> (fl_ge (min_n_samples self) (Fin 1)
            \<longrightarrow> resolve_min_n_samples E self X = Inr (min_n_samples self))
       \<and> (resolve_min_n_samples E self X = Inr k'
            \<longrightarrow> (\<exists>m \<le> nat (max_trials self).
                   draws (calls (snd (snd (fit E self X y w))))
                     = draws (calls w) @ replicate m (length X, k')))
       \<and> (\<not> (fl_less (Fin 0) (min_n_samples self) \<and> fl_less (min_n_samples self) (Fin 1))
            \<and> \<not> fl_ge (min_n_samples self) (Fin 1)
            \<longrightarrow> resolve_min_n_samples E self X = Inl BadMinNSamples
                \<and> (\<exists>e w1. fit E self X y w = (Some e, self, w1)
                      \<and> (if base_estimator self = None \<and> dtype_kind y \<noteq> CHR ''f''
                          then e = NoBaseEstimator else e = BadMinNSamples)
                      \<and> gens w1 = gens w \<and> global_gen w1 = global_gen w
                      \<and> draws (calls w1) = draws (calls w)))"
proof (intro conjI impI)
  assume "fl_less (Fin 0) (min_n_samples self) \<and> fl_less (min_n_samples self) (Fin 1)"
  then obtain r where m: "min_n_samples self = Fin r" and r: "0 < r" "r < 1"
    by (auto elim: fraction_Fin)
  let ?k = "\<lceil>round_double E (r * of_nat (length X))\<rceil>"
  from m r have "resolve_min_n_samples E self X = Inr (Fin (of_int ?k))"
    by (simp add: resolve_min_n_samples_def)
  moreover note ceiling_rounded [OF assms r]
  ultimately show "\<exists>r k. min_n_samples self = Fin r
                  \<and> resolve_min_n_samples E self X = Inr (Fin (of_int k))
                  \<and> k = \<lceil>round_double E (r * of_nat (length X))\<rceil>
                  \<and> \<lceil>r * of_nat (length X)\<rceil> - 1 \<le> k \<and> k \<le> \<lceil>r * of_nat (length X)\<rceil>
                  \<and> (round_double E (r * of_nat (length X)) = r * of_nat (length X)
                       \<longrightarrow> k = \<lceil>r * of_nat (length X)\<rceil>)"
    using m by auto
next
  assume "fl_ge (min_n_samples self) (Fin 1)"
  then show "resolve_min_n_samples E self X = Inr (min_n_samples self)"
    by (rule resolve_min_n_samples_cases(2))
next
  assume "resolve_min_n_samples E self X = Inr k'"
  then show "\<exists>m \<le> nat (max_trials self).
                   draws (calls (snd (snd (fit E self X y w))))
                     = draws (calls w) @ replicate m (length X, k')"
    by (rule fit_draws)
next
  assume a: "\<not> (fl_less (Fin 0) (min_n_samples self) \<and> fl_less (min_n_samples self) (Fin 1))
      \<and> \<not> fl_ge (min_n_samples self) (Fin 1)"
  then show r: "resolve_min_n_samples E self X = Inl BadMinNSamples"
    by (simp add: resolve_min_n_samples_cases(3))
  show "\<exists>e w1. fit E self X y w = (Some e, self, w1)
                      \<and> (if base_estimator self = None \<and> dtype_kind y \<noteq> CHR ''f''
                          then e = NoBaseEstimator else e = BadMinNSamples)
                      \<and> gens w1 = gens w \<and> global_gen w1 = global_gen w
                      \<and> draws (calls w1) = draws (calls w)"
  proof (cases "base_estimator self")
    case None
    then show ?thesis
      by (cases "dtype_kind y = CHR ''f''")
         (simp_all add: fit_def r resolve_base_estimator_cases draws_append draws_def
                        map_filter_def)
  next
    case (Some p)
    then show ?thesis
      by (simp add: fit_def r resolve_base_estimator_cases draws_append draws_def
                    map_filter_def)
  qed
qed

theorem min_n_samples_resolution_witness:
  "round_double demo_env = (\<lambda>x. x)
   \<and> fl_less (Fin 0) (min_n_samples demo_self_third)
   \<and> fl_less (min_n_samples demo_self_third) (Fin 1)
   \<and> min_n_samples demo_self_third = Fin (1 / 3)
   \<and> resolve_min_n_samples demo_env demo_self_third demo_X = Inr (Fin 2)
   \<and> \<lceil>(1 / 3 :: rat) * of_nat (length demo_X)\<rceil> = 2
   \<and> fl_ge (min_n_samples demo_self_three) (Fin 1)
   \<and> resolve_min_n_samples demo_env demo_self_three demo_X = Inr (Fin 3)
   \<and> resolve_min_n_samples demo_env demo_self demo_X = Inr (Fin 2)
   \<and> (\<exists>m \<le> 3. draws (calls (snd (snd (fit demo_env demo_self demo_X demo_y demo_world))))
                = draws (calls demo_world) @ replicate m (length demo_X, Fin 2))
   \<and> draws (calls (snd (snd (fit demo_env demo_self demo_X demo_y demo_world))))
       = [(4, Fin 2), (4, Fin 2), (4, Fin 2)]
   \<and> \<not> (fl_less (Fin 0) (min_n_samples demo_self_nought)
         \<and> fl_less (min_n_samples demo_self_nought) (Fin 1))
   \<and> \<not> fl_ge (min_n_samples demo_self_nought) (Fin 1)
   \<and> resolve_min_n_samples demo_env demo_self_nought demo_X = Inl BadMinNSamples
   \<and> (\<exists>w1. fit demo_env demo_self_nought demo_X demo_y demo_world
              = (Some BadMinNSamples, demo_self_nought, w1)
            \<and> gens w1 = gens demo_world \<and> global_gen w1 = global_gen demo_world
            \<and> draws (calls w1) = draws (calls demo_world))"
proof -
  have rd: "round_double demo_env = (\<lambda>x. x)"
    by (simp add: demo_env_def)
  have h1: "\<forall>x y. x \<le> y \<longrightarrow> round_double demo_env x \<le> round_double demo_env y"
    by (simp add: rd)
  have h2: "\<forall>i. 0 \<le> i \<and> i \<le> int (length demo_X)
              \<longrightarrow> round_double demo_env (of_int i) = of_int i"
    by (simp add: rd)
  note inst = min_n_samples_resolution [OF h1 h2]
  have a: "fl_less (Fin 0) (min_n_samples demo_self_third)
      \<and> fl_less (min_n_samples demo_self_third) (Fin 1)"
    and a': "min_n_samples demo_self_third = Fin (1 / 3)"
    by (simp_all add: demo_self_third_def)
  have ce: "\<lceil>(1 / 3 :: rat) * of_nat (length demo_X)\<rceil> = 2"
    by (simp add: demo_X_def ceiling_eq_iff)
  from inst [of demo_self_third] a obtain r k where
    mr: "min_n_samples demo_self_third = Fin r"
    and rk: "resolve_min_n_samples demo_env demo_self_third demo_X = Inr (Fin (of_int k))"
    and ex: "round_double demo_env (r * of_nat (length demo_X)) = r * of_nat (length demo_X)
           \<longrightarrow> k = \<lceil>r * of_nat (length demo_X)\<rceil>"
    by blast
  from mr a' have r: "r = 1 / 3"
    by simp
  from ex have "k = \<lceil>r * of_nat (length demo_X)\<rceil>"
    by (simp add: rd)
  with ce have "k = 2"
    unfolding r by simp
  with rk have ra: "resolve_min_n_samples demo_env demo_self_third demo_X = Inr (Fin 2)"
    by simp
  have b: "fl_ge (min_n_samples demo_self_three) (Fin 1)"
    by (simp add: demo_self_three_def)
  with inst [of demo_self_three]
  have rb: "resolve_min_n_samples demo_env demo_self_three demo_X = Inr (Fin 3)"
    by (simp add: demo_self_three_def)
  have rc: "resolve_min_n_samples demo_env demo_self demo_X = Inr (Fin 2)"
    by (simp add: resolve_min_n_samples_def demo_defs)
  with inst [of demo_self "Fin 2" demo_y demo_world]
  have d1: "\<exists>m \<le> 3. draws (calls (snd (snd (fit demo_env demo_self demo_X demo_y demo_world))))
                = draws (calls demo_world) @ replicate m (length demo_X, Fin 2)"
    by (simp add: demo_self_def)
  have d2: "draws (calls (snd (snd (fit demo_env demo_self demo_X demo_y demo_world))))
       = [(4, Fin 2), (4, Fin 2), (4, Fin 2)]"
    by (simp add: fit_eval_defs demo_defs draws_def map_filter_def)
  have c: "\<not> (fl_less (Fin 0) (min_n_samples demo_self_nought)
         \<and> fl_less (min_n_samples demo_self_nought) (Fin 1))
      \<and> \<not> fl_ge (min_n_samples demo_self_nought) (Fin 1)"
    by (simp add: demo_self_nought_def)
  from inst [of demo_self_nought _ demo_y demo_world] c
  have re: "resolve_min_n_samples demo_env demo_self_nought demo_X = Inl BadMinNSamples"
    and "\<exists>e w1. fit demo_env demo_self_nought demo_X demo_y demo_world
                   = (Some e, demo_self_nought, w1)
           \<and> (if base_estimator demo_self_nought = None \<and> dtype_kind demo_y \<noteq> CHR ''f''
               then e = NoBaseEstimator else e = BadMinNSamples)
           \<and> gens w1 = gens demo_world \<and> global_gen w1 = global_gen demo_world
           \<and> draws (calls w1) = draws (calls demo_world)"
    by blast+
  then have rf: "\<exists>w1. fit demo_env demo_self_nought demo_X demo_y demo_world
              = (Some BadMinNSamples, demo_self_nought, w1)
            \<and> gens w1 = gens demo_world \<and> global_gen w1 = global_gen demo_world
            \<and> draws (calls w1) = draws (calls demo_world)"
    by (auto simp: demo_y_def)
  from rd a a' ra ce b rb rc d1 d2 c re rf show ?thesis by blast
qed

subsection \<open>The working estimator\<close>

lemma finish_error:
  "finish E self b L w = (Some e, self', w') \<Longrightarrow> e \<noteq> NoBaseEstimator \<and> e \<noteq> BadMinNSamples"
  by (auto simp: finish_def Let_def split: option.splits)

lemma fit_NoBaseEstimator:
  "fst (fit E self X y w) = Some NoBaseEstimator
     \<longleftrightarrow> base_estimator self = None \<and> dtype_kind y \<noteq> CHR ''f''"
proof (cases "base_estimator self = None \<and> dtype_kind y \<noteq> CHR ''f''")
  case True
  then show ?thesis
    by (simp add: fit_def resolve_base_estimator_cases)
next
  case False
  then obtain b w1 where r: "resolve_base_estimator E self y w = (Inr b, w1)"
    by (cases "base_estimator self") (auto simp: resolve_base_estimator_cases)
  have "fst (fit E self X y w) \<noteq> Some NoBaseEstimator"
  proof (cases "resolve_min_n_samples E self X")
    case (Inl e)
    then have "e = BadMinNSamples"
      by (simp add: resolve_min_n_samples_def split: if_splits)
    with Inl r show ?thesis by (simp add: fit_def)
  next
    case (Inr k)
    obtain rs w2 where c: "check_random_state E (random_state self) w1 = (rs, w2)"
      by (cases "check_random_state E (random_state self) w1")
    obtain t w3 where
      t: "trials E self X (items y) b rs k [0..<nat (max_trials self)] init_locals w2 = (t, w3)"
      by (cases "trials E self X (items y) b rs k [0..<nat (max_trials self)] init_locals w2")
    show ?thesis
    proof (cases t)
      case (Inl e)
      with trials_error t have "e = Propagated \<or> e = IndexError" by blast
      with Inl Inr r c t show ?thesis by (auto simp: fit_def)
    next
      case (Inr L)
      obtain o1 s1 v1 where f: "finish E self b L w3 = (o1, s1, v1)"
        by (cases "finish E self b L w3")
      with finish_error [of E self b L w3 NoBaseEstimator s1 v1]
      have "o1 \<noteq> Some NoBaseEstimator" by auto
      with Inr \<open>resolve_min_n_samples E self X = Inr k\<close> r c t f show ?thesis
        by (simp add: fit_def)
    qed
  qed
  with False show ?thesis by simp
qed

lemma finish_returns:
  "finish E self b L w = (None, self', w') \<Longrightarrow> estimator' self' = Some b"
  by (auto simp: finish_def Let_def split: option.splits)

lemma fit_returns:
  assumes "fit E self X y w = (None, self', w')"
  shows "estimator' self' = Some (length (ests w)) \<and> length (ests w) < length (ests w')"
proof (cases rule: fit_cases [where E = E and self = self and X = X and y = y and w = w])
  case (loop_returns b w1 k rs w2 L w3)
  with assms have f: "finish E self b L w3 = (None, self', w')"
    by simp
  note h = resolve_base_estimator_world [OF loop_returns(1)]
  note g = check_random_state_world [OF loop_returns(3)]
  note t = trials_frame [OF loop_returns(4), unfolded frame_def]
  from finish_returns [OF f] finish_frame [OF f] h g t show ?thesis
    by simp
qed (use assms in auto)

text \<open>A run of \<open>fit\<close> on the object with a prototype.\<close>

lemma demo_prototype_fit:
  "fit demo_env demo_self_prototype demo_X demo_y demo_world
     = (None,
        demo_self_prototype\<lparr>estimator' := Some 1, n_trials' := Some 3,
                            inlier_mask' := Some [True, True, False, False]\<rparr>,
        \<lparr>ests = [0, 8], gens = [5, 4], global_gen = 0,
         calls = [CallClone 0,
                  CallRandint 4 (Fin 2), CallFit [2, 3] [2, 7],
                  CallPredict [1, 2, 3, 4], CallScore [1, 2] [1, 2],
                  CallRandint 4 (Fin 2), CallFit [3, 4] [7, 9],
                  CallPredict [1, 2, 3, 4], CallScore [1, 2] [1, 2],
                  CallRandint 4 (Fin 2), CallFit [4, 1] [9, 1],
                  CallPredict [1, 2, 3, 4], CallScore [1, 2] [1, 2],
                  CallFit [1, 2] [1, 2]]\<rparr>)"
  by (simp add: fit_eval_defs demo_defs demo_self_prototype_def)

text \<open>
  C6. \<open>fit\<close> raises "\<open>base_estimator\<close> not specified" exactly when no base estimator is
  configured and the dtype of \<open>y\<close> is not a float one, and then nothing has happened: the
  store is as before. With no base estimator and a float \<open>y\<close> the working estimator is a new
  \<open>LinearRegression\<close>; with a base estimator it is a clone of it, a new object holding a
  copy of the prototype's state. The new object is the one that is used: when \<open>fit\<close>
  returns, it is the fitted estimator, and every estimator object that was there before,
  the prototype among them, is in the state it was in.
\<close>

theorem base_estimator_resolution:
  "(fst (fit E self X y w) = Some NoBaseEstimator
      \<longleftrightarrow> base_estimator self = None \<and> dtype_kind y \<noteq> CHR ''f'')
   \<and> (base_estimator self = None \<and> dtype_kind y \<noteq> CHR ''f''
      \<longrightarrow> fit E self X y w = (Some NoBaseEstimator, self, w))
   \<and> (base_estimator self = None \<and> dtype_kind y = CHR ''f''
      \<longrightarrow> resolve_base_estimator E self y w
            = (Inr (length (ests w)),
               w\<lparr>ests := ests w @ [LinearRegression E],
                 calls := calls w @ [CallLinearRegression]\<rparr>))
   \<and> (base_estimator self = Some p
      \<longrightarrow> resolve_base_estimator E self y w
            = (Inr (length (ests w)),
               w\<lparr>ests := ests w @ [clone E (ests w ! p)],
                 calls := calls w @ [CallClone p]\<rparr>))
   \<and> (fit E self X y w = (None, self', w')
      \<longrightarrow> estimator' self' = Some (length (ests w))
          \<and> (\<forall>a < length (ests w). ests w' ! a = ests w ! a))"
proof (intro conjI impI)
  show "fst (fit E self X y w) = Some NoBaseEstimator
      \<longleftrightarrow> base_estimator self = None \<and> dtype_kind y \<noteq> CHR ''f''"
    by (rule fit_NoBaseEstimator)
next
  assume "base_estimator self = None \<and> dtype_kind y \<noteq> CHR ''f''"
  then show "fit E self X y w = (Some NoBaseEstimator, self, w)"
    by (simp add: fit_def resolve_base_estimator_cases)
next
  assume f: "fit E self X y w = (None, self', w')"
  from fit_returns [OF f] show "estimator' self' = Some (length (ests w))"
    by simp
  from fit_frame [OF f] show "\<forall>a < length (ests w). ests w' ! a = ests w ! a"
    by simp
qed (simp_all add: resolve_base_estimator_cases)

theorem base_estimator_resolution_witness:
  "base_estimator demo_self = None \<and> dtype_kind (demo_y\<lparr>dtype_kind := CHR ''i''\<rparr>) \<noteq> CHR ''f''
   \<and> fit demo_env demo_self demo_X (demo_y\<lparr>dtype_kind := CHR ''i''\<rparr>) demo_world
       = (Some NoBaseEstimator, demo_self, demo_world)
   \<and> fst (fit demo_env demo_self demo_X (demo_y\<lparr>dtype_kind := CHR ''i''\<rparr>) demo_world)
       = Some NoBaseEstimator
   \<and> dtype_kind demo_y = CHR ''f''
   \<and> resolve_base_estimator demo_env demo_self demo_y demo_world
       = (Inr 1, demo_world\<lparr>ests := [0, 0], calls := [CallLinearRegression]\<rparr>)
   \<and> fst (fit demo_env demo_self demo_X demo_y demo_world) \<noteq> Some NoBaseEstimator
   \<and> base_estimator demo_self_prototype = Some 0
   \<and> resolve_base_estimator demo_env demo_self_prototype demo_y demo_world
       = (Inr 1, demo_world\<lparr>ests := [0, 0], calls := [CallClone 0]\<rparr>)
   \<and> fit demo_env demo_self_prototype demo_X demo_y demo_world
       = (None,
          demo_self_prototype\<lparr>estimator' := Some 1, n_trials' := Some 3,
                              inlier_mask' := Some [True, True, False, False]\<rparr>,
          demo_world_fitted)
   \<and> estimator' (demo_self_prototype\<lparr>estimator' := Some 1, n_trials' := Some 3,
                              inlier_mask' := Some [True, True, False, False]\<rparr>)
       = Some (length (ests demo_world))
   \<and> 0 < length (ests demo_world)
   \<and> ests demo_world_fitted ! 0 = ests demo_world ! 0"
proof -
  let ?yi = "demo_y\<lparr>dtype_kind := CHR ''i''\<rparr>"
  let ?s1 = "demo_self_prototype\<lparr>estimator' := Some 1, n_trials' := Some 3,
                              inlier_mask' := Some [True, True, False, False]\<rparr>"
  have a: "base_estimator demo_self = None \<and> dtype_kind ?yi \<noteq> CHR ''f''"
    by (simp add: demo_self_def)
  have b: "base_estimator demo_self = None \<and> dtype_kind demo_y = CHR ''f''"
    by (simp add: demo_self_def demo_y_def)
  have c: "base_estimator demo_self_prototype = Some 0"
    by (simp add: demo_self_prototype_def)
  have d: "fit demo_env demo_self_prototype demo_X demo_y demo_world
             = (None, ?s1, demo_world_fitted)"
    by (simp add: demo_prototype_fit demo_world_fitted_def)
  have l: "0 < length (ests demo_world)"
    by (simp add: demo_world_def)
  from base_estimator_resolution [of demo_env demo_self demo_X ?yi demo_world] a
  have r1: "fit demo_env demo_self demo_X ?yi demo_world
              = (Some NoBaseEstimator, demo_self, demo_world)"
    and r2: "fst (fit demo_env demo_self demo_X ?yi demo_world) = Some NoBaseEstimator"
    by blast+
  from base_estimator_resolution [of demo_env demo_self demo_X demo_y demo_world] b
  have "resolve_base_estimator demo_env demo_self demo_y demo_world
          = (Inr (length (ests demo_world)),
             demo_world\<lparr>ests := ests demo_world @ [LinearRegression demo_env],
                        calls := calls demo_world @ [CallLinearRegression]\<rparr>)"
    and r4: "fst (fit demo_env demo_self demo_X demo_y demo_world) \<noteq> Some NoBaseEstimator"
    by simp_all
  then have r3: "resolve_base_estimator demo_env demo_self demo_y demo_world
       = (Inr 1, demo_world\<lparr>ests := [0, 0], calls := [CallLinearRegression]\<rparr>)"
    by (simp add: demo_world_def demo_env_def)
  note p = base_estimator_resolution [of demo_env demo_self_prototype demo_X demo_y
      demo_world 0 ?s1 demo_world_fitted]
  from p c
  have "resolve_base_estimator demo_env demo_self_prototype demo_y demo_world
          = (Inr (length (ests demo_world)),
             demo_world\<lparr>ests := ests demo_world @ [clone demo_env (ests demo_world ! 0)],
                        calls := calls demo_world @ [CallClone 0]\<rparr>)"
    by blast
  then have r5: "resolve_base_estimator demo_env demo_self_prototype demo_y demo_world
       = (Inr 1, demo_world\<lparr>ests := [0, 0], calls := [CallClone 0]\<rparr>)"
    by (simp add: demo_world_def demo_env_def)
  from p d have r6: "estimator' ?s1 = Some (length (ests demo_world))"
    and "\<forall>a < length (ests demo_world). ests demo_world_fitted ! a = ests demo_world ! a"
    by blast+
  with l have r7: "ests demo_world_fitted ! 0 = ests demo_world ! 0"
    by blast
  from a b c d l r1 r2 r3 r4 r5 r6 r7 show ?thesis by blast
qed

text \<open>
  C10. When \<open>fit\<close> raises, whatever the error, the object is as before the call: none of
  the three fitted attributes is assigned, and no estimator object that was there before the
  call has changed, the one an earlier fit stored among them.
\<close>

theorem failed_fit_assigns_nothing:
  assumes "fst (fit E self X y w) = Some e"
  shows "fst (snd (fit E self X y w)) = self
       \<and> (\<forall>a < length (ests w). ests (snd (snd (fit E self X y w))) ! a = ests w ! a)"
proof -
  obtain self' w' where f: "fit E self X y w = (Some e, self', w')"
    using assms by (cases "fit E self X y w") auto
  from fit_raises_self [OF f] fit_frame [OF f] f show ?thesis by simp
qed

theorem failed_fit_assigns_nothing_witness:
  "fst (fit demo_env demo_fitted demo_X demo_y demo_world) = Some NoConsensus
   \<and> fst (snd (fit demo_env demo_fitted demo_X demo_y demo_world)) = demo_fitted
   \<and> estimator' demo_fitted = Some 0 \<and> n_trials' demo_fitted = Some 3
   \<and> inlier_mask' demo_fitted = Some [True, True, False, False]
   \<and> 0 < length (ests demo_world)
   \<and> ests (snd (snd (fit demo_env demo_fitted demo_X demo_y demo_world))) ! 0
       = ests demo_world ! 0"
proof -
  have h: "fst (fit demo_env demo_fitted demo_X demo_y demo_world) = Some NoConsensus"
    by (simp add: fit_eval_defs demo_defs demo_fitted_def)
  have l: "0 < length (ests demo_world)"
    by (simp add: demo_world_def)
  from failed_fit_assigns_nothing [OF h] h l show ?thesis
    by (simp add: demo_fitted_def)
qed

text \<open>
  C9, amended. \<open>fit\<close> assigns none of the constructor's parameters (the object differs
  from the one before at most in the three fitted attributes) and changes no estimator
  object that was there before the call, the prototype among them: the fits work on a new
  object. Of the generators it changes at most the one that \<open>random_state\<close> is: a
  generator object passed as \<open>random_state\<close>, or numpy's global generator when
  \<open>random_state\<close> is \<open>None\<close>.
\<close>

theorem fit_frame_parameters:
  assumes "fit E self X y w = (r, self', w')"
  shows "self'\<lparr>estimator' := estimator' self, n_trials' := n_trials' self,
               inlier_mask' := inlier_mask' self\<rparr> = self
       \<and> (\<forall>a < length (ests w). ests w' ! a = ests w ! a)
       \<and> (\<forall>a < length (gens w). random_state self \<noteq> RSInstance a \<longrightarrow> gens w' ! a = gens w ! a)
       \<and> (random_state self \<noteq> RSNone \<longrightarrow> global_gen w' = global_gen w)"
  using fit_self [OF assms] fit_frame [OF assms] by simp

theorem fit_frame_parameters_witness:
  "fit demo_env demo_self_prototype demo_X demo_y demo_world
     = (None,
        demo_self_prototype\<lparr>estimator' := Some 1, n_trials' := Some 3,
                            inlier_mask' := Some [True, True, False, False]\<rparr>,
        \<lparr>ests = [0, 8], gens = [5, 4], global_gen = 0,
         calls = [CallClone 0,
                  CallRandint 4 (Fin 2), CallFit [2, 3] [2, 7],
                  CallPredict [1, 2, 3, 4], CallScore [1, 2] [1, 2],
                  CallRandint 4 (Fin 2), CallFit [3, 4] [7, 9],
                  CallPredict [1, 2, 3, 4], CallScore [1, 2] [1, 2],
                  CallRandint 4 (Fin 2), CallFit [4, 1] [9, 1],
                  CallPredict [1, 2, 3, 4], CallScore [1, 2] [1, 2],
                  CallFit [1, 2] [1, 2]]\<rparr>)
   \<and> base_estimator demo_self_prototype = Some 0
   \<and> 0 < length (ests demo_world) \<and> [0, 8 :: nat] ! 0 = ests demo_world ! 0
   \<and> 0 < length (gens demo_world) \<and> random_state demo_self_prototype \<noteq> RSInstance 0
   \<and> [5, 4 :: nat] ! 0 = gens demo_world ! 0
   \<and> random_state demo_self_prototype \<noteq> RSNone \<and> (0 :: nat) = global_gen demo_world"
proof -
  have h: "0 < length (ests demo_world)" "0 < length (gens demo_world)"
    "random_state demo_self_prototype \<noteq> RSInstance 0"
    "random_state demo_self_prototype \<noteq> RSNone"
    "base_estimator demo_self_prototype = Some 0"
    by (simp_all add: demo_world_def demo_self_prototype_def demo_self_def)
  note f = fit_frame_parameters [OF demo_prototype_fit]
  from f [THEN conjunct2, THEN conjunct1, rule_format, of 0] h(1)
  have a: "[0, 8 :: nat] ! 0 = ests demo_world ! 0"
    by simp
  from f [THEN conjunct2, THEN conjunct2, THEN conjunct1, rule_format, of 0] h(2,3)
  have b: "[5, 4 :: nat] ! 0 = gens demo_world ! 0"
    by simp
  from f [THEN conjunct2, THEN conjunct2, THEN conjunct2, rule_format] h(4)
  have "(0 :: nat) = global_gen demo_world"
    by simp
  note a b this
  with h demo_prototype_fit show ?thesis by blast
qed

text \<open>
  C9 as stated fails: a generator object passed as \<open>random_state\<close> is not as before the
  call when \<open>fit\<close> returns. Its state was 5; three draws later it is 8.
\<close>

theorem generator_instance_counterexample:
  "random_state demo_self_instance = RSInstance 0
   \<and> gens demo_world ! 0 = 5
   \<and> fit demo_env demo_self_instance demo_X demo_y demo_world
     = (None,
        demo_self_instance\<lparr>estimator' := Some 1, n_trials' := Some 3,
                           inlier_mask' := Some [True, True, False, False]\<rparr>,
        \<lparr>ests = [0, 8], gens = [8], global_gen = 0,
         calls = [CallLinearRegression,
                  CallRandint 4 (Fin 2), CallFit [2, 3] [2, 7],
                  CallPredict [1, 2, 3, 4], CallScore [1, 2] [1, 2],
                  CallRandint 4 (Fin 2), CallFit [3, 4] [7, 9],
                  CallPredict [1, 2, 3, 4], CallScore [1, 2] [1, 2],
                  CallRandint 4 (Fin 2), CallFit [4, 1] [9, 1],
                  CallPredict [1, 2, 3, 4], CallScore [1, 2] [1, 2],
                  CallFit [1, 2] [1, 2]]\<rparr>)
   \<and> gens (snd (snd (fit demo_env demo_self_instance demo_X demo_y demo_world))) ! 0 = 8"
  by (simp add: fit_eval_defs demo_defs demo_self_instance_def)

subsection \<open>Two runs\<close>

text \<open>\<open>fit\<close> does not read the fitted attributes.\<close>

lemma consensus_attrs:
  "consensus E (self\<lparr>estimator' := a, n_trials' := c, inlier_mask' := d\<rparr>) X y b L w
     = consensus E self X y b L w"
proof -
  let ?s = "self\<lparr>estimator' := a, n_trials' := c, inlier_mask' := d\<rparr>"
  have eqs: "residual_threshold ?s = residual_threshold self"
    "stop_n_inliers ?s = stop_n_inliers self" "stop_score ?s = stop_score self"
    by simp_all
  show ?thesis
    unfolding consensus_def eqs by (rule refl)
qed

lemma trial_attrs:
  "trial E (self\<lparr>estimator' := a, n_trials' := c, inlier_mask' := d\<rparr>) X y b rs k L w
     = trial E self X y b rs k L w"
proof -
  let ?s = "self\<lparr>estimator' := a, n_trials' := c, inlier_mask' := d\<rparr>"
  have eqs: "is_data_valid ?s = is_data_valid self" "is_model_valid ?s = is_model_valid self"
    by simp_all
  show ?thesis
    unfolding trial_def eqs consensus_attrs by (rule refl)
qed

lemma trials_attrs:
  "trials E (self\<lparr>estimator' := a, n_trials' := c, inlier_mask' := d\<rparr>) X y b rs k is L w
     = trials E self X y b rs k is L w"
  by (induction "is" arbitrary: L w)
     (simp_all add: trial_attrs cong: prod.case_cong flow.case_cong)

lemma finish_sim:
  assumes "b1 < length (ests w1)" and "b2 < length (ests w2)"
      and "ests w1 ! b1 = ests w2 ! b2"
      and "finish E s1 b1 L w1 = (r1, t1, v1)"
      and "finish E s2 b2 L w2 = (r2, t2, v2)"
  shows "r1 = r2
       \<and> (r1 = None \<longrightarrow>
            n_trials' t1 = n_trials' t2 \<and> inlier_mask' t1 = inlier_mask' t2
            \<and> estimator' t1 = Some b1 \<and> estimator' t2 = Some b2
            \<and> ests v1 ! b1 = ests v2 ! b2)"
  using assms
  by (auto simp: finish_def Let_def log_call_def est_set_def split: option.splits)

text \<open>
  C8. With an integer seed for \<open>random_state\<close>, two runs of \<open>fit\<close> with the same
  parameters on the same data end alike, whatever the two stores hold otherwise (the
  global generator, other objects, what an earlier fit assigned), provided the prototype is
  in the same state in both: both raise the same error, or both return with the same
  \<^verbatim>\<open>n_trials_\<close>, the same \<^verbatim>\<open>inlier_mask_\<close> and fitted estimators in the same state. A second
  run on the same object is the case where the second store is the one the first run left.
\<close>

theorem fit_deterministic:
  assumes "random_state self = RSSeed n"
      and "\<forall>p. base_estimator self = Some p \<longrightarrow>
             p < length (ests w1) \<and> p < length (ests w2) \<and> ests w1 ! p = ests w2 ! p"
      and "fit E self X y w1 = (r1, s1, v1)"
      and "fit E (self\<lparr>estimator' := a, n_trials' := c, inlier_mask' := d\<rparr>) X y w2
             = (r2, s2, v2)"
  shows "r1 = r2
       \<and> (r1 = None \<longrightarrow>
            n_trials' s1 = n_trials' s2 \<and> inlier_mask' s1 = inlier_mask' s2
            \<and> (\<exists>b1 b2. estimator' s1 = Some b1 \<and> estimator' s2 = Some b2
                  \<and> ests v1 ! b1 = ests v2 ! b2))"
proof -
  let ?self2 = "self\<lparr>estimator' := a, n_trials' := c, inlier_mask' := d\<rparr>"
  have rb2: "resolve_base_estimator E ?self2 y w2 = resolve_base_estimator E self y w2"
    by (simp add: resolve_base_estimator_def)
  have rm2: "resolve_min_n_samples E ?self2 X = resolve_min_n_samples E self X"
    by (simp add: resolve_min_n_samples_def)
  show ?thesis
  proof (cases "base_estimator self = None \<and> dtype_kind y \<noteq> CHR ''f''")
    case True
    with assms(3,4) have "r1 = Some NoBaseEstimator" "r2 = Some NoBaseEstimator"
      by (auto simp: fit_def resolve_base_estimator_cases)
    then show ?thesis by simp
  next
    case False
    then obtain b1 u1 where r1: "resolve_base_estimator E self y w1 = (Inr b1, u1)"
      by (cases "base_estimator self") (auto simp: resolve_base_estimator_cases)
    from False obtain b2 u2 where r2: "resolve_base_estimator E self y w2 = (Inr b2, u2)"
      by (cases "base_estimator self") (auto simp: resolve_base_estimator_cases)
    have e0: "b1 < length (ests u1) \<and> b2 < length (ests u2) \<and> ests u1 ! b1 = ests u2 ! b2"
    proof (cases "base_estimator self")
      case None
      with False r1 r2 show ?thesis
        by (auto simp: resolve_base_estimator_cases)
    next
      case (Some p)
      with assms(2) r1 r2 show ?thesis
        by (auto simp: resolve_base_estimator_cases)
    qed
    show ?thesis
    proof (cases "resolve_min_n_samples E self X")
      case (Inl e)
      with r1 r2 rb2 rm2 assms(3,4) have "r1 = Some e" "r2 = Some e"
        by (auto simp: fit_def)
      then show ?thesis by simp
    next
      case (Inr k)
      obtain rs1 x1 where c1: "check_random_state E (random_state self) u1 = (rs1, x1)"
        by (cases "check_random_state E (random_state self) u1")
      obtain rs2 x2 where c2: "check_random_state E (random_state self) u2 = (rs2, x2)"
        by (cases "check_random_state E (random_state self) u2")
      note g1 = check_random_state_gens [OF c1] check_random_state_world [OF c1]
      note g2 = check_random_state_gens [OF c2] check_random_state_world [OF c2]
      from g1 g2 assms(1) e0
      have v: "b1 < length (ests x1)" "b2 < length (ests x2)" "ests x1 ! b1 = ests x2 ! b2"
        "gen_valid x1 rs1" "gen_valid x2 rs2" "gen_get x1 rs1 = gen_get x2 rs2"
        by auto
      let ?is = "[0..<nat (max_trials self)]"
      obtain t1 y1 where
        t1: "trials E self X (items y) b1 rs1 k ?is init_locals x1 = (t1, y1)"
        by (cases "trials E self X (items y) b1 rs1 k ?is init_locals x1")
      obtain t2 y2 where
        t2: "trials E self X (items y) b2 rs2 k ?is init_locals x2 = (t2, y2)"
        by (cases "trials E self X (items y) b2 rs2 k ?is init_locals x2")
      from trials_sim [OF v, of E self X "items y" k ?is init_locals] t1 t2
      have s: "t1 = t2" "ests y1 ! b1 = ests y2 ! b2"
        by simp_all
      from trials_frame [OF t1] trials_frame [OF t2] v(1,2)
      have l: "b1 < length (ests y1)" "b2 < length (ests y2)"
        by (simp_all add: frame_def)
      have f1: "fit E self X y w1
                  = (case t1 of Inl e \<Rightarrow> (Some e, self, y1) | Inr L \<Rightarrow> finish E self b1 L y1)"
        using r1 Inr c1 t1 by (simp add: fit_def split: sum.splits)
      have f2: "fit E ?self2 X y w2
                  = (case t1 of Inl e \<Rightarrow> (Some e, ?self2, y2)
                     | Inr L \<Rightarrow> finish E ?self2 b2 L y2)"
        using r2 rb2 rm2 Inr c2 t2 s(1)
        by (simp add: fit_def trials_attrs split: sum.splits)
      show ?thesis
      proof (cases t1)
        case (Inl e)
        with f1 f2 assms(3,4) have "r1 = Some e" "r2 = Some e"
          by auto
        then show ?thesis by simp
      next
        case (Inr L)
        with f1 f2 assms(3,4) have
          "finish E self b1 L y1 = (r1, s1, v1)" "finish E ?self2 b2 L y2 = (r2, s2, v2)"
          by simp_all
        from finish_sim [OF l s(2) this] show ?thesis by blast
      qed
    qed
  qed
qed

theorem fit_deterministic_witness:
  "random_state demo_self_prototype = RSSeed 1
   \<and> base_estimator demo_self_prototype = Some 0
   \<and> 0 < length (ests demo_world) \<and> 0 < length (ests demo_world_fitted)
   \<and> ests demo_world ! 0 = ests demo_world_fitted ! 0
   \<and> fit demo_env demo_self_prototype demo_X demo_y demo_world
       = (None,
          demo_self_prototype\<lparr>estimator' := Some 1, n_trials' := Some 3,
                              inlier_mask' := Some [True, True, False, False]\<rparr>,
          demo_world_fitted)
   \<and> fst (fit demo_env
            (demo_self_prototype\<lparr>estimator' := Some 1, n_trials' := Some 3,
                                 inlier_mask' := Some [True, True, False, False]\<rparr>)
            demo_X demo_y demo_world_fitted) = None
   \<and> n_trials' (fst (snd (fit demo_env
            (demo_self_prototype\<lparr>estimator' := Some 1, n_trials' := Some 3,
                                 inlier_mask' := Some [True, True, False, False]\<rparr>)
            demo_X demo_y demo_world_fitted))) = Some 3
   \<and> inlier_mask' (fst (snd (fit demo_env
            (demo_self_prototype\<lparr>estimator' := Some 1, n_trials' := Some 3,
                                 inlier_mask' := Some [True, True, False, False]\<rparr>)
            demo_X demo_y demo_world_fitted))) = Some [True, True, False, False]
   \<and> (\<exists>b2. estimator' (fst (snd (fit demo_env
            (demo_self_prototype\<lparr>estimator' := Some 1, n_trials' := Some 3,
                                 inlier_mask' := Some [True, True, False, False]\<rparr>)
            demo_X demo_y demo_world_fitted))) = Some b2
          \<and> ests demo_world_fitted ! 1
              = ests (snd (snd (fit demo_env
            (demo_self_prototype\<lparr>estimator' := Some 1, n_trials' := Some 3,
                                 inlier_mask' := Some [True, True, False, False]\<rparr>)
            demo_X demo_y demo_world_fitted))) ! b2)"
proof -
  let ?s1 = "demo_self_prototype\<lparr>estimator' := Some 1, n_trials' := Some 3,
                              inlier_mask' := Some [True, True, False, False]\<rparr>"
  have h1: "random_state demo_self_prototype = RSSeed 1"
    by (simp add: demo_self_prototype_def demo_self_def)
  have h0: "base_estimator demo_self_prototype = Some 0
      \<and> 0 < length (ests demo_world) \<and> 0 < length (ests demo_world_fitted)
      \<and> ests demo_world ! 0 = ests demo_world_fitted ! 0"
    by (simp add: demo_self_prototype_def demo_world_def demo_world_fitted_def)
  then have h2: "\<forall>p. base_estimator demo_self_prototype = Some p \<longrightarrow>
          p < length (ests demo_world) \<and> p < length (ests demo_world_fitted)
          \<and> ests demo_world ! p = ests demo_world_fitted ! p"
    by simp
  have h3: "fit demo_env demo_self_prototype demo_X demo_y demo_world
              = (None, ?s1, demo_world_fitted)"
    by (simp add: demo_prototype_fit demo_world_fitted_def)
  obtain r2 s2 v2 where h4: "fit demo_env ?s1 demo_X demo_y demo_world_fitted = (r2, s2, v2)"
    by (cases "fit demo_env ?s1 demo_X demo_y demo_world_fitted")
  from fit_deterministic [OF h1 h2 h3 h4] h4
  have "fst (fit demo_env ?s1 demo_X demo_y demo_world_fitted) = None
      \<and> n_trials' (fst (snd (fit demo_env ?s1 demo_X demo_y demo_world_fitted))) = Some 3
      \<and> inlier_mask' (fst (snd (fit demo_env ?s1 demo_X demo_y demo_world_fitted)))
          = Some [True, True, False, False]
      \<and> (\<exists>b2. estimator' (fst (snd (fit demo_env ?s1 demo_X demo_y demo_world_fitted)))
                 = Some b2
             \<and> ests demo_world_fitted ! 1
                 = ests (snd (snd (fit demo_env ?s1 demo_X demo_y demo_world_fitted))) ! b2)"
    by auto
  with h1 h0 h3 show ?thesis by blast
qed

end
